theory Spec2Isabelle
  imports Main "HOL-Library.Sublist"
begin

section \<open>Data model\<close>

text \<open>
  Go strings are byte sequences; they are modelled as \<open>string\<close> (a list of 8-bit
  characters). \<open>time.Time\<close> values are abstract instants, modelled as natural numbers;
  every \<open>time.Now()\<close> of the source reads the clock reading passed to the function.
\<close>

datatype appState = stateInput | stateDebating | stateStopped | stateError

record Turn =
  ModelName :: string
  Content :: string
  Timestamp :: nat

record OllamaClient =
  baseURL :: string

record GenerateResponse =
  Model :: string
  Response :: string
  Done :: bool
  Context :: "int list"

section \<open>The Ollama client (ollama.go)\<close>

definition NewOllamaClient :: "string \<Rightarrow> OllamaClient" where
  "NewOllamaClient url =
     (let url = (if url = '''' then ''http://localhost:11434'' else url)
      in \<lparr>baseURL = url\<rparr>)"

section \<open>The prompt composer (prompt.go)\<close>

abbreviation nl :: string where
  "nl \<equiv> [CHR 0x0A]"

abbreviation dq :: string where
  "dq \<equiv> [CHR 0x22]"

abbreviation apostrophe :: string where
  "apostrophe \<equiv> [CHR 0x27]"

text \<open>
  \<open>FormatHistory\<close>: the loop over \<open>history\<close> with its index \<open>i\<close>; \<open>n\<close> is
  \<open>len(history)\<close> and \<open>formatted\<close> the builder's content so far.
\<close>

fun FormatHistory_loop :: "nat \<Rightarrow> nat \<Rightarrow> Turn list \<Rightarrow> string \<Rightarrow> string" where
  "FormatHistory_loop n i [] formatted = formatted"
| "FormatHistory_loop n i (turn # rest) formatted =
     (let formatted = formatted @ ''['' @ ModelName turn @ '']: '' @ Content turn;
          formatted = (if int i < int n - 1 then formatted @ nl @ nl else formatted)
      in FormatHistory_loop n (i + 1) rest formatted)"

definition FormatHistory :: "Turn list \<Rightarrow> string" where
  "FormatHistory history = FormatHistory_loop (length history) 0 history ''''"

definition openingInstruction :: string where
  "openingInstruction =
     ''You will be presenting the opening argument. Take a clear position on this topic and present your initial arguments.''
     @ nl @ nl"

definition opposingInstruction :: string where
  "opposingInstruction =
     ''You will be responding to the opening argument. Take an opposing or alternative perspective and present your counterarguments.''
     @ nl @ nl"

definition BuildDebatePrompt :: "string \<Rightarrow> Turn list \<Rightarrow> string \<Rightarrow> bool \<Rightarrow> string" where
  "BuildDebatePrompt topic history currentModel isFirstTurn =
     (let prompt = '''';
          prompt = prompt @ ''You are participating in a debate on the topic: '' @ dq @ topic @ dq @ nl @ nl;
          prompt = prompt @ ''You are '' @ currentModel
                     @ ''. Your role is to present arguments and respond to your opponent''
                     @ apostrophe @ ''s points.'' @ nl @ nl;
          prompt = (if isFirstTurn
                    then (if length history = 0
                          then prompt @ openingInstruction
                          else prompt @ opposingInstruction)
                    else prompt);
          prompt = (if length history > 0
                    then prompt @ ''Previous discussion:'' @ nl @ FormatHistory history @ nl
                    else prompt);
          prompt = (if length history > 0
                    then prompt @ ''Provide your next argument or response. Be thoughtful, specific, and engage directly with the previous points made.'' @ nl
                    else prompt @ ''Provide your opening argument. Be thoughtful, specific, and clearly state your position.'' @ nl)
      in prompt)"

text \<open>The prompt, cut at the places where the composer's branches write.\<close>

definition promptHeader :: "string \<Rightarrow> string \<Rightarrow> string" where
  "promptHeader topic currentModel =
     ''You are participating in a debate on the topic: '' @ dq @ topic @ dq @ nl @ nl
     @ ''You are '' @ currentModel
     @ ''. Your role is to present arguments and respond to your opponent''
     @ apostrophe @ ''s points.'' @ nl @ nl"

definition positionInstruction :: "bool \<Rightarrow> Turn list \<Rightarrow> string" where
  "positionInstruction isFirstTurn history =
     (if isFirstTurn then (if history = [] then openingInstruction else opposingInstruction)
      else '''')"

definition promptRemainder :: "Turn list \<Rightarrow> string" where
  "promptRemainder history =
     (if history \<noteq> []
      then ''Previous discussion:'' @ nl @ FormatHistory history @ nl
           @ ''Provide your next argument or response. Be thoughtful, specific, and engage directly with the previous points made.'' @ nl
      else ''Provide your opening argument. Be thoughtful, specific, and clearly state your position.'' @ nl)"

text \<open>
  The wording of the two position instructions, without the full stop and the blank line
  that end them, and the inputs of the composer that carry such a wording themselves: the
  composer copies topic, participant name and turns into the prompt as they are.
\<close>

definition openingWording :: string where
  "openingWording =
     ''You will be presenting the opening argument. Take a clear position on this topic and present your initial arguments''"

definition opposingWording :: string where
  "opposingWording =
     ''You will be responding to the opening argument. Take an opposing or alternative perspective and present your counterarguments''"

definition carriesWording :: "string \<Rightarrow> string \<Rightarrow> Turn list \<Rightarrow> string \<Rightarrow> bool" where
  "carriesWording w topic history currentModel =
     (sublist w topic \<or> sublist w currentModel \<or>
      list_ex (\<lambda>turn. sublist w (ModelName turn) \<or> sublist w (Content turn)) history)"

definition carriesNoInstruction :: "string \<Rightarrow> Turn list \<Rightarrow> string \<Rightarrow> bool" where
  "carriesNoInstruction topic history currentModel =
     (\<not> carriesWording openingWording topic history currentModel \<and>
      \<not> carriesWording opposingWording topic history currentModel)"

text \<open>
  Checks on the fixed texts of the prompt: a word \<open>w\<close> neither begins inside the text
  \<open>g\<close> and runs over its end, nor ends inside \<open>g\<close> having begun before it; and a word
  that occurs in none of the fixed texts the composer writes around its inputs, \<open>sentence\<close>
  being the instruction written, if any.
\<close>

definition startsNowhere :: "string \<Rightarrow> string \<Rightarrow> bool" where
  "startsNowhere w g =
     list_all (\<lambda>k. \<not> prefix (drop k g) w \<and> \<not> prefix w (drop k g)) [0..<length g]"

definition endsNowhere :: "string \<Rightarrow> string \<Rightarrow> bool" where
  "endsNowhere w g =
     list_all (\<lambda>k. \<not> suffix (take k g) w \<and> \<not> suffix w (take k g)) [1..<Suc (length g)]"

definition templateAvoids :: "string \<Rightarrow> string \<Rightarrow> bool" where
  "templateAvoids w sentence =
     (w \<noteq> '''' \<and>
      CHR 0x22 \<notin> set w \<and> CHR 0x27 \<notin> set w \<and> CHR 0x0A \<notin> set w \<and>
      CHR ''['' \<notin> set w \<and> CHR '']'' \<notin> set w \<and>
      \<not> sublist w ''You are participating in a debate on the topic: '' \<and>
      startsNowhere w ''You are '' \<and>
      endsNowhere w ''. Your role is to present arguments and respond to your opponent'' \<and>
      \<not> sublist w ''s points.'' \<and>
      \<not> sublist w sentence \<and>
      \<not> sublist w ''Provide your opening argument. Be thoughtful, specific, and clearly state your position.'' \<and>
      \<not> sublist w ''Previous discussion:'' \<and>
      startsNowhere w '': '' \<and>
      \<not> sublist w ''Provide your next argument or response. Be thoughtful, specific, and engage directly with the previous points made.'')"

section \<open>The streaming generation client (ollama.go, GenerateResponse)\<close>

text \<open>
  The goroutine of \<open>GenerateResponse\<close> talks to the HTTP transport, the line scanner, the
  JSON decoder and the context. They are the environment of the client and are given to
  the model as a script: what the transport answered, and for every line the scanner
  delivers, what the context check at the top of the loop saw, what \<open>json.Unmarshal\<close>
  gave on the line, and how the \<open>select\<close> that hands the increment over ended.
\<close>

datatype sendOutcome = Delivered | CancelSeen

record scanEvent =
  ctxDone :: bool
  line :: string
  decoded :: "string + GenerateResponse"
  handoff :: sendOutcome

datatype genError =
    MarshalFailed string
  | CreateRequestFailed string
  | SendFailed string
  | StatusNotOK int
  | ContextErr
  | ParseFailed string
  | ReadFailed string

datatype transport =
    MarshalError string
  | NewRequestError string
  | DoError string
  | HTTPResponse int "scanEvent list" "string option"

datatype loopExit = ScanEnded | Returned "genError option"

text \<open>
  The \<open>for scanner.Scan()\<close> loop. The result is the list of increments sent on
  \<open>responseChan\<close> and how the loop was left: by \<open>Scan\<close> returning false, or by a
  \<open>return\<close> with the error sent on \<open>errorChan\<close> (none for the return at \<open>Done\<close>).
\<close>

fun scanLoop :: "scanEvent list \<Rightarrow> string list \<times> loopExit" where
  "scanLoop [] = ([], ScanEnded)"
| "scanLoop (ev # rest) =
     (if ctxDone ev then ([], Returned (Some ContextErr))
      else if length (line ev) = 0 then scanLoop rest
      else (case decoded ev of
              Inl err \<Rightarrow> ([], Returned (Some (ParseFailed err)))
            | Inr genResp \<Rightarrow>
                (let (sent, cancelled) =
                       (if Response genResp \<noteq> ''''
                        then (case handoff ev of
                                Delivered \<Rightarrow> ([Response genResp], False)
                              | CancelSeen \<Rightarrow> ([], True))
                        else ([], False))
                 in if cancelled then ([], Returned (Some ContextErr))
                    else if Done genResp then (sent, Returned None)
                    else (let (chunks, exit) = scanLoop rest in (sent @ chunks, exit)))))"

text \<open>
  The whole call: the increments received on \<open>responseChan\<close> and the error received on
  \<open>errorChan\<close> before both are closed (\<open>None\<close>: closed with no error).
\<close>

definition OllamaClient_GenerateResponse :: "transport \<Rightarrow> string list \<times> genError option" where
  "OllamaClient_GenerateResponse t =
     (case t of
        MarshalError err \<Rightarrow> ([], Some (MarshalFailed err))
      | NewRequestError err \<Rightarrow> ([], Some (CreateRequestFailed err))
      | DoError err \<Rightarrow> ([], Some (SendFailed err))
      | HTTPResponse StatusCode events scannerErr \<Rightarrow>
          (if StatusCode \<noteq> 200 then ([], Some (StatusNotOK StatusCode))
           else (case scanLoop events of
                   (chunks, Returned r) \<Rightarrow> (chunks, r)
                 | (chunks, ScanEnded) \<Rightarrow>
                     (case scannerErr of
                        Some err \<Rightarrow> (chunks, Some (ReadFailed err))
                      | None \<Rightarrow> (chunks, None)))))"

text \<open>Vocabulary for statements about a response stream.\<close>

definition passes :: "scanEvent \<Rightarrow> bool" where
  "passes ev =
     (\<not> ctxDone ev \<and>
      (line ev = '''' \<or>
       (case decoded ev of
          Inl err \<Rightarrow> False
        | Inr r \<Rightarrow> \<not> Done r \<and> (Response r = '''' \<or> handoff ev = Delivered))))"

definition completes :: "scanEvent \<Rightarrow> bool" where
  "completes ev =
     (\<not> ctxDone ev \<and> line ev \<noteq> '''' \<and>
      (case decoded ev of
         Inl err \<Rightarrow> False
       | Inr r \<Rightarrow> Done r \<and> (Response r = '''' \<or> handoff ev = Delivered)))"

definition malformed :: "scanEvent \<Rightarrow> bool" where
  "malformed ev = (\<not> ctxDone ev \<and> line ev \<noteq> '''' \<and> isl (decoded ev))"

definition cancelObserved :: "scanEvent \<Rightarrow> bool" where
  "cancelObserved ev =
     (ctxDone ev \<or>
      (line ev \<noteq> '''' \<and>
       (case decoded ev of
          Inl err \<Rightarrow> False
        | Inr r \<Rightarrow> Response r \<noteq> '''' \<and> handoff ev = CancelSeen)))"

definition completionParsed :: "scanEvent list \<Rightarrow> bool" where
  "completionParsed events =
     list_ex (\<lambda>ev. line ev \<noteq> '''' \<and> (case decoded ev of Inl err \<Rightarrow> False | Inr r \<Rightarrow> Done r)) events"

fun increments :: "scanEvent list \<Rightarrow> string list" where
  "increments [] = []"
| "increments (ev # rest) =
     (if line ev = '''' then increments rest
      else (case decoded ev of
              Inl err \<Rightarrow> increments rest
            | Inr r \<Rightarrow> (if Response r = '''' then increments rest
                        else Response r # increments rest)))"

text \<open>
  Example lines: a well-formed record as Ollama sends it, handed over without
  cancellation, and a line that is not JSON.
\<close>

definition wireRecord :: "string \<Rightarrow> bool \<Rightarrow> scanEvent" where
  "wireRecord text fin =
     \<lparr>ctxDone = False,
      line = ''{'' @ dq @ ''model'' @ dq @ '':'' @ dq @ ''mistral:7b'' @ dq @ '',''
             @ dq @ ''response'' @ dq @ '':'' @ dq @ text @ dq @ '',''
             @ dq @ ''done'' @ dq @ '':'' @ (if fin then ''true'' else ''false'') @ ''}'',
      decoded = Inr \<lparr>Model = ''mistral:7b'', Response = text, Done = fin, Context = []\<rparr>,
      handoff = Delivered\<rparr>"

definition badLine :: scanEvent where
  "badLine =
     \<lparr>ctxDone = False, line = ''invalid json {{{'',
      decoded = Inl ''invalid character'', handoff = Delivered\<rparr>"

text \<open>
  Cancellation of the caller's context. A failure has the cancellation as its cause when
  it is \<open>ctx.Err()\<close> itself, or wraps (\<open>%w\<close>) an error carrying the text of
  \<open>context.Canceled\<close>; \<open>Ollama API returned status %d\<close> wraps nothing. The
  repository's cancellation test recognises the cause in the same way, by this text in
  the error it receives.
\<close>

definition canceledText :: string where
  "canceledText = ''context canceled''"

fun canceledCause :: "genError \<Rightarrow> bool" where
  "canceledCause ContextErr = True"
| "canceledCause (SendFailed err) = sublist canceledText err"
| "canceledCause (ReadFailed err) = sublist canceledText err"
| "canceledCause (CreateRequestFailed err) = sublist canceledText err"
| "canceledCause (MarshalFailed err) = sublist canceledText err"
| "canceledCause (ParseFailed err) = sublist canceledText err"
| "canceledCause (StatusNotOK code) = False"

text \<open>
  The moment at which the cancellation reaches the goroutine: while \<open>Do\<close> sends the
  request, while \<open>Scan\<close> waits for the line after the first \<open>k\<close>, at the check at
  the top of the loop for line \<open>k\<close>, or in the \<open>select\<close> that hands over the increment
  of line \<open>k\<close>. \<open>cancelledAt\<close> is what the environment answers from that moment on,
  given the lines \<open>events\<close> of the uncancelled exchange: the transport, which holds the
  context of the request, fails with its error \<open>transportErr\<close>; the \<open>Done\<close> channel,
  once closed, is seen closed by every later check. \<open>inProgressAt\<close> says that the
  generation is still running at that moment, \<open>emittedBefore\<close> are the increments of the
  lines handled before it, and \<open>failureAt\<close> is the error the source sends there.
\<close>

datatype moment = WhileSending | WhileReading nat | BeforeRecord nat | WhileHandingOver nat

fun cancelledAt :: "moment \<Rightarrow> string \<Rightarrow> scanEvent list \<Rightarrow> string option \<Rightarrow> transport" where
  "cancelledAt WhileSending transportErr events scannerErr = DoError transportErr"
| "cancelledAt (WhileReading k) transportErr events scannerErr =
     HTTPResponse 200 (take k events) (Some transportErr)"
| "cancelledAt (BeforeRecord k) transportErr events scannerErr =
     HTTPResponse 200
       (take k events @ map (\<lambda>ev. ev\<lparr>ctxDone := True\<rparr>) (drop k events)) scannerErr"
| "cancelledAt (WhileHandingOver k) transportErr events scannerErr =
     HTTPResponse 200
       (take k events @ (events ! k)\<lparr>handoff := CancelSeen\<rparr>
          # map (\<lambda>ev. ev\<lparr>ctxDone := True\<rparr>) (drop (Suc k) events)) scannerErr"

fun inProgressAt :: "moment \<Rightarrow> scanEvent list \<Rightarrow> bool" where
  "inProgressAt WhileSending events = True"
| "inProgressAt (WhileReading k) events = (k \<le> length events \<and> list_all passes (take k events))"
| "inProgressAt (BeforeRecord k) events = (k < length events \<and> list_all passes (take k events))"
| "inProgressAt (WhileHandingOver k) events =
     (k < length events \<and> list_all passes (take k events) \<and>
      \<not> ctxDone (events ! k) \<and> line (events ! k) \<noteq> '''' \<and>
      (case decoded (events ! k) of Inl err \<Rightarrow> False | Inr r \<Rightarrow> Response r \<noteq> ''''))"

fun emittedBefore :: "moment \<Rightarrow> scanEvent list \<Rightarrow> string list" where
  "emittedBefore WhileSending events = []"
| "emittedBefore (WhileReading k) events = increments (take k events)"
| "emittedBefore (BeforeRecord k) events = increments (take k events)"
| "emittedBefore (WhileHandingOver k) events = increments (take k events)"

fun failureAt :: "moment \<Rightarrow> string \<Rightarrow> genError" where
  "failureAt WhileSending transportErr = SendFailed transportErr"
| "failureAt (WhileReading k) transportErr = ReadFailed transportErr"
| "failureAt (BeforeRecord k) transportErr = ContextErr"
| "failureAt (WhileHandingOver k) transportErr = ContextErr"

section \<open>Topic validation: strings.TrimSpace\<close>

text \<open>
  \<open>strings.TrimSpace\<close> of the Go standard library removes leading and trailing white
  space, as Unicode defines it, from a UTF-8 string. On bytes: it strips, from the left
  and then from the right, the UTF-8 encodings of the code points U+0009..U+000D, U+0020,
  U+0085, U+00A0, U+1680, U+2000..U+200A, U+2028, U+2029, U+202F, U+205F and U+3000.
\<close>

definition spaceEncodings :: "string list" where
  "spaceEncodings =
     [ [CHR 0x09], [CHR 0x0A], [CHR 0x0B], [CHR 0x0C], [CHR 0x0D], [CHR 0x20],
      [CHR 0xC2, CHR 0x85], [CHR 0xC2, CHR 0xA0],
      [CHR 0xE1, CHR 0x9A, CHR 0x80],
      [CHR 0xE2, CHR 0x80, CHR 0x80], [CHR 0xE2, CHR 0x80, CHR 0x81],
      [CHR 0xE2, CHR 0x80, CHR 0x82], [CHR 0xE2, CHR 0x80, CHR 0x83],
      [CHR 0xE2, CHR 0x80, CHR 0x84], [CHR 0xE2, CHR 0x80, CHR 0x85],
      [CHR 0xE2, CHR 0x80, CHR 0x86], [CHR 0xE2, CHR 0x80, CHR 0x87],
      [CHR 0xE2, CHR 0x80, CHR 0x88], [CHR 0xE2, CHR 0x80, CHR 0x89],
      [CHR 0xE2, CHR 0x80, CHR 0x8A],
      [CHR 0xE2, CHR 0x80, CHR 0xA8], [CHR 0xE2, CHR 0x80, CHR 0xA9],
      [CHR 0xE2, CHR 0x80, CHR 0xAF],
      [CHR 0xE2, CHR 0x81, CHR 0x9F],
      [CHR 0xE3, CHR 0x80, CHR 0x80] ]"

definition leadingSpace :: "string \<Rightarrow> string option" where
  "leadingSpace s = List.find (\<lambda>p. prefix p s) spaceEncodings"

definition trailingSpace :: "string \<Rightarrow> string option" where
  "trailingSpace s = List.find (\<lambda>p. suffix p s) spaceEncodings"

lemma spaceEncodings_nonempty: "p \<in> set spaceEncodings \<Longrightarrow> p \<noteq> []"
  by (auto simp: spaceEncodings_def)

lemma leadingSpace_Some: "leadingSpace s = Some p \<Longrightarrow> p \<in> set spaceEncodings \<and> prefix p s"
  unfolding leadingSpace_def find_Some_iff by auto

lemma trailingSpace_Some: "trailingSpace s = Some p \<Longrightarrow> p \<in> set spaceEncodings \<and> suffix p s"
  unfolding trailingSpace_def find_Some_iff by auto

function trimLeftSpace :: "string \<Rightarrow> string" where
  "trimLeftSpace s =
     (case leadingSpace s of
        None \<Rightarrow> s
      | Some p \<Rightarrow> trimLeftSpace (drop (length p) s))"
  by pat_completeness auto
termination
proof (relation "measure length")
  fix s p
  assume "leadingSpace s = Some p"
  then have "p \<noteq> []" and "prefix p s"
    using leadingSpace_Some spaceEncodings_nonempty by blast+
  from \<open>p \<noteq> []\<close> obtain k where "length p = Suc k" by (cases p) auto
  moreover from \<open>prefix p s\<close> have "length p \<le> length s" by (rule prefix_length_le)
  ultimately show "(drop (length p) s, s) \<in> measure length" by simp
qed simp

function trimRightSpace :: "string \<Rightarrow> string" where
  "trimRightSpace s =
     (case trailingSpace s of
        None \<Rightarrow> s
      | Some p \<Rightarrow> trimRightSpace (take (length s - length p) s))"
  by pat_completeness auto
termination
proof (relation "measure length")
  fix s p
  assume "trailingSpace s = Some p"
  then have "p \<noteq> []" and "suffix p s"
    using trailingSpace_Some spaceEncodings_nonempty by blast+
  from \<open>p \<noteq> []\<close> obtain k where "length p = Suc k" by (cases p) auto
  moreover from \<open>suffix p s\<close> have "length p \<le> length s" by (rule suffix_length_le)
  ultimately show "(take (length s - length p) s, s) \<in> measure length" by simp
qed simp

declare trimLeftSpace.simps [simp del] trimRightSpace.simps [simp del]

definition TrimSpace :: "string \<Rightarrow> string" where
  "TrimSpace s = trimRightSpace (trimLeftSpace s)"

text \<open>A string that is empty or made of white-space characters only.\<close>

inductive whitespaceOnly :: "string \<Rightarrow> bool" where
  empty: "whitespaceOnly []"
| space: "w \<in> set spaceEncodings \<Longrightarrow> whitespaceOnly s \<Longrightarrow> whitespaceOnly (w @ s)"

section \<open>The turn orchestrator (the Bubble Tea model and its Update)\<close>

record viewport =
  Width :: int
  Height :: int
  content :: string
  YOffset :: int

datatype msg =
    KeyMsg string
  | WindowSizeMsg int int
  | responseChunkMsg string
  | responseCompleteMsg string
  | responseErrorMsg "string option"
  | stopDebateMsg
  | otherMsg

datatype cmd = nilCmd | Quit | generateResponseCmd string string | Batch

text \<open>
  The widgets of the \<open>bubbles\<close> library are external: how the text input reacts to a key
  (on its content) and how the viewport reacts to a message, to \<open>SetContent\<close> and to
  \<open>GotoBottom\<close> are parameters of \<open>Update\<close>. A key message carries \<open>msg.String()\<close>, an
  error message carries the text of \<open>msg.err\<close> (\<open>None\<close> for a nil error).
\<close>

record bubbles =
  textInputUpdate :: "string \<Rightarrow> string \<Rightarrow> string"
  viewportUpdate :: "msg \<Rightarrow> viewport \<Rightarrow> viewport"
  viewportSetContent :: "string \<Rightarrow> viewport \<Rightarrow> viewport"
  viewportGotoBottom :: "viewport \<Rightarrow> viewport"

record debateModel =
  model1Name :: string
  model2Name :: string
  ollamaClient :: OllamaClient
  topic :: string
  history :: "Turn list"
  currentTurn :: int
  isGenerating :: bool
  state :: appState
  viewport :: viewport
  textInput :: string
  errorMsg :: string
  width :: int
  height :: int

definition getNextModel :: "debateModel \<Rightarrow> string" where
  "getNextModel m = (if currentTurn m = 0 then model1Name m else model2Name m)"

definition switchTurn :: "debateModel \<Rightarrow> debateModel" where
  "switchTurn m = (if currentTurn m = 0 then m\<lparr>currentTurn := 1\<rparr> else m\<lparr>currentTurn := 0\<rparr>)"

text \<open>
  \<open>generateResponse\<close> returns a command; the command is described by the participant
  it addresses and the prompt it sends.
\<close>

definition generateResponse :: "debateModel \<Rightarrow> cmd" where
  "generateResponse m =
     (let modelName = getNextModel m;
          isFirstTurn = (length (history m) = 0);
          prompt = BuildDebatePrompt (topic m) (history m) modelName isFirstTurn
      in generateResponseCmd modelName prompt)"

definition formatDebateHistory :: "debateModel \<Rightarrow> string" where
  "formatDebateHistory m =
     (let output = foldl (\<lambda>output turn.
                      output @ ''['' @ ModelName turn @ '']: '' @ Content turn @ nl @ nl)
                    '''' (history m)
      in if isGenerating m
         then output @ ''['' @ getNextModel m @ '' is thinking...]'' @ nl
         else output)"

text \<open>The tail of \<open>Update\<close> that every case without a \<open>return\<close> falls through to.\<close>

definition updateViewport :: "bubbles \<Rightarrow> debateModel \<Rightarrow> msg \<Rightarrow> debateModel \<times> cmd" where
  "updateViewport ui m msg =
     (let m = (if state m = stateDebating \<or> state m = stateStopped
               then m\<lparr>viewport := viewportUpdate ui msg (viewport m)\<rparr>
               else m)
      in (m, Batch))"

fun Update :: "bubbles \<Rightarrow> nat \<Rightarrow> debateModel \<Rightarrow> msg \<Rightarrow> debateModel \<times> cmd" where
  "Update ui now m (KeyMsg key) =
     (if key = ''ctrl+c'' \<or> key = ''q''
      then (if state m = stateDebating then (m\<lparr>state := stateStopped\<rparr>, Quit) else (m, Quit))
      else if key = ''enter'' \<and> state m = stateInput
      then (let topicText = textInput m
            in if length (TrimSpace topicText) = 0
               then (m\<lparr>errorMsg := ''Topic cannot be empty''\<rparr>, nilCmd)
               else (let m = m\<lparr>topic := topicText, state := stateDebating, errorMsg := '''',
                                isGenerating := True, currentTurn := 0\<rparr>
                     in (m, generateResponse m)))
      else (let m = (if state m = stateInput
                     then m\<lparr>textInput := textInputUpdate ui key (textInput m)\<rparr>
                     else m)
            in updateViewport ui m (KeyMsg key)))"
| "Update ui now m (WindowSizeMsg w h) =
     (let m = m\<lparr>width := w, height := h\<rparr>;
          m = (if state m = stateDebating \<or> state m = stateStopped
               then m\<lparr>viewport := (viewport m)\<lparr>Width := w, Height := h - 5\<rparr>\<rparr>
               else m)
      in updateViewport ui m (WindowSizeMsg w h))"
| "Update ui now m (responseChunkMsg chunk) =
     (let m = (if isGenerating m
               then (let n = length (history m);
                         m = (if n > 0 \<and> ModelName (history m ! (n - 1)) = getNextModel m
                              then m\<lparr>history := (history m)
                                      [n - 1 := (history m ! (n - 1))
                                         \<lparr>Content := Content (history m ! (n - 1)) @ chunk\<rparr>]\<rparr>
                              else m\<lparr>history := history m @
                                      [\<lparr>ModelName = getNextModel m, Content = chunk,
                                        Timestamp = now\<rparr>]\<rparr>)
                     in m\<lparr>viewport := viewportGotoBottom ui
                            (viewportSetContent ui (formatDebateHistory m) (viewport m))\<rparr>)
               else m)
      in updateViewport ui m (responseChunkMsg chunk))"
| "Update ui now m (responseCompleteMsg fullResponse) =
     (let m = m\<lparr>isGenerating := False\<rparr>;
          n = length (history m);
          m = (if n = 0 \<or> Content (history m ! (n - 1)) \<noteq> fullResponse
               then (if n > 0 \<and> ModelName (history m ! (n - 1)) = getNextModel m
                     then m\<lparr>history := (history m)
                             [n - 1 := (history m ! (n - 1))
                                \<lparr>Content := fullResponse, Timestamp := now\<rparr>]\<rparr>
                     else m\<lparr>history := history m @
                             [\<lparr>ModelName = getNextModel m, Content = fullResponse,
                               Timestamp = now\<rparr>]\<rparr>)
               else m);
          m = switchTurn m;
          m = m\<lparr>isGenerating := True\<rparr>
      in (m, generateResponse m))"
| "Update ui now m (responseErrorMsg err) =
     (let m = m\<lparr>isGenerating := False\<rparr>;
          m = m\<lparr>errorMsg := ''Error: '' @ (case err of None \<Rightarrow> ''<nil>'' | Some e \<Rightarrow> e)\<rparr>;
          m = switchTurn m;
          m = m\<lparr>isGenerating := True\<rparr>
      in (m, generateResponse m))"
| "Update ui now m stopDebateMsg =
     (m\<lparr>isGenerating := False, state := stateStopped\<rparr>, Quit)"
| "Update ui now m otherMsg = updateViewport ui m otherMsg"

text \<open>The model that \<open>main\<close> hands to the Bubble Tea program.\<close>

definition initialModel :: "string \<Rightarrow> string \<Rightarrow> OllamaClient \<Rightarrow> debateModel" where
  "initialModel model1 model2 client =
     \<lparr>model1Name = model1, model2Name = model2, ollamaClient = client,
      topic = '''', history = [], currentTurn = 0, isGenerating = False,
      state = stateInput,
      viewport = \<lparr>Width = 0, Height = 0, content = '''', YOffset = 0\<rparr>,
      textInput = '''', errorMsg = '''', width = 0, height = 0\<rparr>"

text \<open>
  The states the program can be in: the initial model and whatever \<open>Update\<close> makes of
  a reachable state, for any message, clock reading and widget behaviour.
\<close>

inductive reachable :: "debateModel \<Rightarrow> bool" where
  init: "reachable (initialModel model1 model2 client)"
| step: "reachable m \<Longrightarrow> reachable (fst (Update ui now m msg))"

text \<open>Running a sequence of messages, each with the clock reading at its arrival.\<close>

fun run :: "bubbles \<Rightarrow> debateModel \<Rightarrow> (nat \<times> msg) list \<Rightarrow> debateModel" where
  "run ui m [] = m"
| "run ui m ((now, msg) # rest) = run ui (fst (Update ui now m msg)) rest"

text \<open>
  Example runs. The widgets: the text input appends the key to what it holds, the viewport
  keeps its content.
\<close>

definition plainWidgets :: bubbles where
  "plainWidgets =
     \<lparr>textInputUpdate = (\<lambda>key current. current @ key),
      viewportUpdate = (\<lambda>msg v. v),
      viewportSetContent = (\<lambda>s v. v\<lparr>content := s\<rparr>),
      viewportGotoBottom = (\<lambda>v. v)\<rparr>"

definition typedTopic :: debateModel where
  "typedTopic =
     run plainWidgets (initialModel ''A'' ''B'' (NewOllamaClient '''')) [(0, KeyMsg ''t'')]"

definition blankTopic :: debateModel where
  "blankTopic = (initialModel ''A'' ''B'' (NewOllamaClient ''''))\<lparr>textInput := ''   ''\<rparr>"

definition exampleDebate :: debateModel where
  "exampleDebate =
     run plainWidgets (initialModel ''A'' ''B'' (NewOllamaClient ''''))
       [(0, KeyMsg ''t''), (1, KeyMsg ''enter''),
        (2, responseCompleteMsg ''Remote work wins.''),
        (3, responseErrorMsg (Some ''status 503'')),
        (4, responseCompleteMsg ''Indeed.''),
        (5, responseCompleteMsg ''No.'')]"

definition afterFirstTurn :: debateModel where
  "afterFirstTurn =
     run plainWidgets (initialModel ''A'' ''B'' (NewOllamaClient ''''))
       [(0, KeyMsg ''t''), (1, KeyMsg ''enter''), (2, responseCompleteMsg ''Yes.'')]"

definition afterFailure :: debateModel where
  "afterFailure =
     run plainWidgets (initialModel ''A'' ''B'' (NewOllamaClient ''''))
       [(0, KeyMsg ''t''), (1, KeyMsg ''enter''), (2, responseCompleteMsg ''Yes.''),
        (3, responseErrorMsg (Some ''status 503''))]"

definition stoppedDebate :: debateModel where
  "stoppedDebate =
     run plainWidgets (initialModel ''A'' ''B'' (NewOllamaClient ''''))
       [(0, KeyMsg ''t''), (1, KeyMsg ''enter''), (2, KeyMsg ''q'')]"

section \<open>The client constructor\<close>

text \<open>
  C9. Constructing the client with the empty base URL gives the base URL
  \<open>http://localhost:11434\<close>; constructing it with a non-empty string gives that string
  unchanged.
\<close>

theorem NewOllamaClient_baseURL:
  "baseURL (NewOllamaClient '''') = ''http://localhost:11434''
   \<and> (url \<noteq> '''' \<longrightarrow> baseURL (NewOllamaClient url) = url)"
  by (simp add: NewOllamaClient_def)

theorem NewOllamaClient_baseURL_witness:
  "baseURL (NewOllamaClient '''') = ''http://localhost:11434''
   \<and> ''http://custom:8080'' \<noteq> ''''
   \<and> baseURL (NewOllamaClient ''http://custom:8080'') = ''http://custom:8080''"
  using NewOllamaClient_baseURL [of "''http://custom:8080''"] by simp

section \<open>Substring facts\<close>

lemma sublist_mid: "sublist x b \<Longrightarrow> sublist x (a @ b @ c)"
proof -
  assume "sublist x b"
  then obtain p s where "b = p @ x @ s" unfolding sublist_def by blast
  then have "a @ b @ c = (a @ p) @ x @ (s @ c)" by simp
  then show ?thesis unfolding sublist_def by blast
qed

lemma sublist_left: "sublist x a \<Longrightarrow> sublist x (a @ c)"
  using sublist_mid [of x a "[]" c] by simp

lemma sublist_right: "sublist x b \<Longrightarrow> sublist x (a @ b)"
  using sublist_mid [of x b a "[]"] by simp

section \<open>The prompt composer: what the prompt contains\<close>

lemma FormatHistory_loop_acc:
  "\<exists>s. FormatHistory_loop n i ts acc = acc @ s"
proof (induction ts arbitrary: i acc)
  case Nil
  show ?case by simp
next
  case (Cons t ts)
  let ?sep = "if int i < int n - 1 then nl @ nl else ''''"
  let ?acc = "acc @ ''['' @ ModelName t @ '']: '' @ Content t @ ?sep"
  have step: "FormatHistory_loop n i (t # ts) acc = FormatHistory_loop n (i + 1) ts ?acc"
    by (simp add: Let_def)
  obtain s where "FormatHistory_loop n (i + 1) ts ?acc = ?acc @ s"
    using Cons.IH by blast
  with step have "FormatHistory_loop n i (t # ts) acc
      = acc @ ((''['' @ ModelName t @ '']: '' @ Content t @ ?sep) @ s)"
    by (simp only: append_assoc)
  then show ?case by (rule exI)
qed

lemma sublist_loop_acc:
  assumes "sublist x acc"
  shows "sublist x (FormatHistory_loop n i ts acc)"
proof -
  obtain s where s: "FormatHistory_loop n i ts acc = acc @ s"
    using FormatHistory_loop_acc by blast
  from assms have "sublist x (acc @ s)" by (rule sublist_left)
  with s show ?thesis by (simp only:)
qed

lemma FormatHistory_loop_turn:
  "t \<in> set ts \<Longrightarrow>
     sublist (Content t) (FormatHistory_loop n i ts acc)
   \<and> sublist (''['' @ ModelName t @ '']:'') (FormatHistory_loop n i ts acc)"
proof (induction ts arbitrary: i acc)
  case Nil
  then show ?case by simp
next
  case (Cons u ts)
  let ?sep = "if int i < int n - 1 then nl @ nl else ''''"
  let ?acc = "acc @ ''['' @ ModelName u @ '']: '' @ Content u @ ?sep"
  have step: "FormatHistory_loop n i (u # ts) acc = FormatHistory_loop n (i + 1) ts ?acc"
    by (simp add: Let_def)
  show ?case
  proof (cases "t = u")
    case True
    have "?acc = (acc @ ''['' @ ModelName u @ '']: '') @ Content u @ ?sep" by simp
    then have c: "sublist (Content u) ?acc" unfolding sublist_def by blast
    have "?acc = acc @ (''['' @ ModelName u @ '']:'') @ ('' '' @ Content u @ ?sep)" by simp
    then have a: "sublist (''['' @ ModelName u @ '']:'') ?acc" unfolding sublist_def by blast
    from c a show ?thesis unfolding step True by (simp only: sublist_loop_acc)
  next
    case False
    with Cons.prems have "t \<in> set ts" by simp
    then show ?thesis unfolding step by (rule Cons.IH)
  qed
qed

lemma BuildDebatePrompt_parts:
  "BuildDebatePrompt topicText transcript currentModel isFirstTurn =
     promptHeader topicText currentModel @ positionInstruction isFirstTurn transcript
     @ promptRemainder transcript"
  unfolding BuildDebatePrompt_def promptHeader_def positionInstruction_def
    promptRemainder_def Let_def
  by (cases isFirstTurn; cases "transcript = []";
      simp only: append_assoc append_Nil append_Nil2 if_True if_False
        length_0_conv length_greater_0_conv simp_thms)

lemma promptHeader_topic: "sublist topicText (promptHeader topicText currentModel)"
proof -
  have "promptHeader topicText currentModel =
      (''You are participating in a debate on the topic: '' @ dq) @ topicText
      @ (dq @ nl @ nl @ ''You are '' @ currentModel
         @ ''. Your role is to present arguments and respond to your opponent''
         @ apostrophe @ ''s points.'' @ nl @ nl)"
    by (simp only: promptHeader_def append_assoc)
  then show ?thesis unfolding sublist_def by blast
qed

lemma promptRemainder_history:
  assumes "transcript \<noteq> []" and "sublist x (FormatHistory transcript)"
  shows "sublist x (promptRemainder transcript)"
proof -
  from assms(1) have "promptRemainder transcript =
      (''Previous discussion:'' @ nl) @ FormatHistory transcript
      @ (nl @ ''Provide your next argument or response. Be thoughtful, specific, and engage directly with the previous points made.'' @ nl)"
    by (simp only: promptRemainder_def if_True append_assoc simp_thms)
  moreover from assms(2) have "sublist x ((''Previous discussion:'' @ nl) @ FormatHistory transcript
      @ (nl @ ''Provide your next argument or response. Be thoughtful, specific, and engage directly with the previous points made.'' @ nl))"
    by (rule sublist_mid)
  ultimately show ?thesis by (simp only:)
qed

text \<open>
  C5. For every topicText, transcript, active participant and opening-turn flag, the
  composed prompt contains the topicText verbatim and, for every index \<open>i\<close> below the
  transcript's length, the content of turn \<open>i\<close> and the attribution token
  \<open>[participant]:\<close> naming its participant.
\<close>

theorem BuildDebatePrompt_context_complete:
  "sublist topicText (BuildDebatePrompt topicText transcript currentModel isFirstTurn)
   \<and> (\<forall>i < length transcript.
        sublist (Content (transcript ! i))
          (BuildDebatePrompt topicText transcript currentModel isFirstTurn)
      \<and> sublist (''['' @ ModelName (transcript ! i) @ '']:'')
          (BuildDebatePrompt topicText transcript currentModel isFirstTurn))"
proof (intro conjI allI impI)
  show "sublist topicText (BuildDebatePrompt topicText transcript currentModel isFirstTurn)"
    unfolding BuildDebatePrompt_parts by (intro sublist_left promptHeader_topic)
next
  fix i assume i: "i < length transcript"
  then have ne: "transcript \<noteq> []" and mem: "transcript ! i \<in> set transcript" by auto
  from mem have
    "sublist (Content (transcript ! i)) (FormatHistory transcript)"
    "sublist (''['' @ ModelName (transcript ! i) @ '']:'') (FormatHistory transcript)"
    unfolding FormatHistory_def using FormatHistory_loop_turn by blast+
  then have
    "sublist (Content (transcript ! i)) (promptRemainder transcript)"
    "sublist (''['' @ ModelName (transcript ! i) @ '']:'') (promptRemainder transcript)"
    using ne by (simp_all add: promptRemainder_history)
  then show
    "sublist (Content (transcript ! i))
       (BuildDebatePrompt topicText transcript currentModel isFirstTurn)"
    "sublist (''['' @ ModelName (transcript ! i) @ '']:'')
       (BuildDebatePrompt topicText transcript currentModel isFirstTurn)"
    unfolding BuildDebatePrompt_parts by (simp_all only: sublist_right)
qed

theorem BuildDebatePrompt_context_complete_witness:
  "sublist ''Mars?''
     (BuildDebatePrompt ''Mars?''
        [\<lparr>ModelName = ''A'', Content = ''Yes.'', Timestamp = 1\<rparr>,
         \<lparr>ModelName = ''B'', Content = ''No.'', Timestamp = 2\<rparr>] ''A'' False)
   \<and> sublist ''No.''
     (BuildDebatePrompt ''Mars?''
        [\<lparr>ModelName = ''A'', Content = ''Yes.'', Timestamp = 1\<rparr>,
         \<lparr>ModelName = ''B'', Content = ''No.'', Timestamp = 2\<rparr>] ''A'' False)
   \<and> sublist ''[B]:''
     (BuildDebatePrompt ''Mars?''
        [\<lparr>ModelName = ''A'', Content = ''Yes.'', Timestamp = 1\<rparr>,
         \<lparr>ModelName = ''B'', Content = ''No.'', Timestamp = 2\<rparr>] ''A'' False)"
proof -
  let ?h = "[\<lparr>ModelName = ''A'', Content = ''Yes.'', Timestamp = 1\<rparr>,
             \<lparr>ModelName = ''B'', Content = ''No.'', Timestamp = 2\<rparr>]"
  note c = BuildDebatePrompt_context_complete [of "''Mars?''" ?h "''A''" False]
  have one: "(1::nat) < length ?h" by simp
  from c have "sublist ''Mars?'' (BuildDebatePrompt ''Mars?'' ?h ''A'' False)"
    by (rule conjunct1)
  moreover from c one have
    "sublist (Content (?h ! 1)) (BuildDebatePrompt ''Mars?'' ?h ''A'' False)
     \<and> sublist (''['' @ ModelName (?h ! 1) @ '']:'') (BuildDebatePrompt ''Mars?'' ?h ''A'' False)"
    by blast
  ultimately show ?thesis by simp
qed

section \<open>The prompt composer: the position instructions\<close>

lemma prompt_after_header:
  "drop (length (promptHeader topicText currentModel))
     (BuildDebatePrompt topicText transcript currentModel isFirstTurn)
   = positionInstruction isFirstTurn transcript @ promptRemainder transcript"
  unfolding BuildDebatePrompt_parts by simp

lemma opening_not_prefix_opposing: "\<not> prefix openingInstruction (opposingInstruction @ X)"
  by (simp add: openingInstruction_def opposingInstruction_def)

lemma opposing_not_prefix_opening: "\<not> prefix opposingInstruction (openingInstruction @ X)"
  by (simp add: openingInstruction_def opposingInstruction_def)

lemma instructions_not_prefix_remainder:
  "\<not> prefix openingInstruction (promptRemainder transcript)"
  "\<not> prefix opposingInstruction (promptRemainder transcript)"
  by (simp_all add: openingInstruction_def opposingInstruction_def promptRemainder_def)

lemma slot_opening:
  "prefix openingInstruction (positionInstruction isFirstTurn transcript @ promptRemainder transcript)
     \<longleftrightarrow> isFirstTurn \<and> transcript = []"
  unfolding positionInstruction_def
  using opening_not_prefix_opposing instructions_not_prefix_remainder(1)
  by (cases isFirstTurn; cases "transcript = []") simp_all

lemma slot_opposing:
  "prefix opposingInstruction (positionInstruction isFirstTurn transcript @ promptRemainder transcript)
     \<longleftrightarrow> isFirstTurn \<and> transcript \<noteq> []"
  unfolding positionInstruction_def
  using opposing_not_prefix_opening instructions_not_prefix_remainder(2)
  by (cases isFirstTurn; cases "transcript = []") simp_all

text \<open>Where a word can occur in a text put together from pieces.\<close>

lemma free_sep:
  assumes "c \<notin> set w" and "\<not> sublist w L" and "\<not> sublist w R"
  shows "\<not> sublist w (L @ c # R)"
proof
  assume "sublist w (L @ c # R)"
  then obtain ps ss where eq: "L @ c # R = (ps @ w) @ ss"
    unfolding sublist_def by auto
  then obtain us where "(L = (ps @ w) @ us \<and> us @ c # R = ss) \<or> (L @ us = ps @ w \<and> c # R = us @ ss)"
    unfolding append_eq_append_conv2 by blast
  then show False
  proof
    assume "L = (ps @ w) @ us \<and> us @ c # R = ss"
    then have "sublist w L" unfolding sublist_def by auto
    with assms(2) show False by simp
  next
    assume a: "L @ us = ps @ w \<and> c # R = us @ ss"
    show False
    proof (cases us)
      case Nil
      with a have "L = ps @ w @ []" by simp
      then have "sublist w L" unfolding sublist_def by blast
      with assms(2) show False by simp
    next
      case (Cons d us')
      with a have d: "d = c" and R: "R = us' @ ss" and L: "L @ c # us' = ps @ w" by auto
      from L obtain vs where "(L = ps @ vs \<and> vs @ c # us' = w) \<or> (L @ vs = ps \<and> c # us' = vs @ w)"
        unfolding append_eq_append_conv2 by blast
      then show False
      proof
        assume "L = ps @ vs \<and> vs @ c # us' = w"
        then have "c \<in> set w" by auto
        with assms(1) show False by simp
      next
        assume b: "L @ vs = ps \<and> c # us' = vs @ w"
        show False
        proof (cases vs)
          case Nil
          with b have "c \<in> set w" by (metis append_Nil list.set_intros(1))
          with assms(1) show False by simp
        next
          case (Cons e vs')
          with b have "us' = vs' @ w" by simp
          with R have "R = vs' @ w @ ss" by simp
          then have "sublist w R" unfolding sublist_def by blast
          with assms(3) show False by simp
        qed
      qed
    qed
  qed
qed

lemma free_after_prefix:
  assumes "startsNowhere w g" and "\<not> sublist w X"
  shows "\<not> sublist w (g @ X)"
proof
  assume "sublist w (g @ X)"
  then obtain ps ss where eq: "g @ X = ps @ (w @ ss)"
    unfolding sublist_def by auto
  then obtain us where "(g = ps @ us \<and> us @ X = w @ ss) \<or> (g @ us = ps \<and> X = us @ w @ ss)"
    unfolding append_eq_append_conv2 by blast
  then show False
  proof
    assume "g @ us = ps \<and> X = us @ w @ ss"
    then have "sublist w X" unfolding sublist_def by blast
    with assms(2) show False by simp
  next
    assume a: "g = ps @ us \<and> us @ X = w @ ss"
    show False
    proof (cases us)
      case Nil
      with a have "X = [] @ w @ ss" by simp
      then have "sublist w X" unfolding sublist_def by blast
      with assms(2) show False by simp
    next
      case (Cons d us')
      with a have k: "length ps < length g" and dr: "drop (length ps) g = us" by auto
      from a obtain vs where "(us = w @ vs \<and> vs @ X = ss) \<or> (us @ vs = w \<and> X = vs @ ss)"
        unfolding append_eq_append_conv2 by blast
      then have "prefix w us \<or> prefix us w" unfolding prefix_def by auto
      with dr have "prefix w (drop (length ps) g) \<or> prefix (drop (length ps) g) w" by simp
      moreover from k have "length ps \<in> set [0..<length g]" by simp
      with assms(1)
      have "\<not> prefix (drop (length ps) g) w \<and> \<not> prefix w (drop (length ps) g)"
        unfolding startsNowhere_def list_all_iff by blast
      ultimately show False by blast
    qed
  qed
qed

lemma free_before_suffix:
  assumes "endsNowhere w g" and "\<not> sublist w X"
  shows "\<not> sublist w (X @ g)"
proof
  assume "sublist w (X @ g)"
  then obtain ps ss where eq: "X @ g = (ps @ w) @ ss"
    unfolding sublist_def by auto
  then obtain us where "(X = (ps @ w) @ us \<and> us @ g = ss) \<or> (X @ us = ps @ w \<and> g = us @ ss)"
    unfolding append_eq_append_conv2 by blast
  then show False
  proof
    assume "X = (ps @ w) @ us \<and> us @ g = ss"
    then have "sublist w X" unfolding sublist_def by auto
    with assms(2) show False by simp
  next
    assume a: "X @ us = ps @ w \<and> g = us @ ss"
    show False
    proof (cases us)
      case Nil
      with a have "X = ps @ w @ []" by simp
      then have "sublist w X" unfolding sublist_def by blast
      with assms(2) show False by simp
    next
      case (Cons d us')
      with a have k: "length us = Suc (length us')" "length us \<le> length g"
        and tk: "take (length us) g = us" by auto
      from a obtain vs where "(X = ps @ vs \<and> vs @ us = w) \<or> (X @ vs = ps \<and> us = vs @ w)"
        unfolding append_eq_append_conv2 by blast
      then have "suffix us w \<or> suffix w us" unfolding suffix_def by auto
      with tk have "suffix (take (length us) g) w \<or> suffix w (take (length us) g)" by simp
      moreover from k have "length us \<in> set [1..<Suc (length g)]" by auto
      with assms(1)
      have "\<not> suffix (take (length us) g) w \<and> \<not> suffix w (take (length us) g)"
        unfolding endsNowhere_def list_all_iff by blast
      ultimately show False by blast
    qed
  qed
qed

lemma templateAvoids_opening_unset: "templateAvoids openingWording ''x''"
  by code_simp

lemma templateAvoids_opening_other: "templateAvoids openingWording (opposingWording @ ''.'')"
  by code_simp

lemma templateAvoids_opposing_unset: "templateAvoids opposingWording ''x''"
  by code_simp

lemma templateAvoids_opposing_other: "templateAvoids opposingWording (openingWording @ ''.'')"
  by code_simp

lemma openingInstruction_wording: "openingInstruction = (openingWording @ ''.'') @ nl @ nl"
  by (simp add: openingInstruction_def openingWording_def)

lemma opposingInstruction_wording: "opposingInstruction = (opposingWording @ ''.'') @ nl @ nl"
  by (simp add: opposingInstruction_def opposingWording_def)

lemma sublist_trans: "sublist x y \<Longrightarrow> sublist y z \<Longrightarrow> sublist x z"
proof -
  assume "sublist x y" and "sublist y z"
  then obtain p s where "z = p @ y @ s" and "sublist x y" unfolding sublist_def by blast
  then show ?thesis by (simp add: sublist_mid)
qed

lemma free_sep_append:
  assumes "c \<notin> set w" and "\<not> sublist w L" and "\<not> sublist w R"
  shows "\<not> sublist w (L @ [c] @ R)"
  using free_sep [OF assms] by simp

lemma FormatHistory_loop_free:
  assumes T: "templateAvoids w sentence"
  shows "\<not> sublist w acc \<Longrightarrow>
     \<forall>turn \<in> set ts. \<not> sublist w (ModelName turn) \<and> \<not> sublist w (Content turn) \<Longrightarrow>
     \<not> sublist w (FormatHistory_loop n i ts acc)"
proof (induction ts arbitrary: i acc)
  case Nil
  then show ?case by simp
next
  case (Cons u ts)
  from T have ne: "w \<noteq> []" and nlc: "CHR 0x0A \<notin> set w"
    and lb: "CHR ''['' \<notin> set w" and rb: "CHR '']'' \<notin> set w"
    and colon: "startsNowhere w '': ''"
    unfolding templateAvoids_def by blast+
  from Cons.prems(2) have name: "\<not> sublist w (ModelName u)" and cont: "\<not> sublist w (Content u)"
    and rest: "\<forall>turn \<in> set ts. \<not> sublist w (ModelName turn) \<and> \<not> sublist w (Content turn)"
    by simp_all
  let ?sep = "if int i < int n - 1 then nl @ nl else ''''"
  let ?acc = "acc @ ''['' @ ModelName u @ '']: '' @ Content u @ ?sep"
  have step: "FormatHistory_loop n i (u # ts) acc = FormatHistory_loop n (i + 1) ts ?acc"
    by (simp add: Let_def)
  from ne have emp: "\<not> sublist w []" by simp
  have tail: "\<not> sublist w (Content u @ ?sep)"
  proof (cases "int i < int n - 1")
    case True
    have "\<not> sublist w ([] @ [CHR 0x0A] @ [])" by (rule free_sep_append [OF nlc emp emp])
    from this have "\<not> sublist w (Content u @ [CHR 0x0A] @ ([] @ [CHR 0x0A] @ []))"
      by (rule free_sep_append [OF nlc cont])
    with True show ?thesis by simp
  next
    case False
    with cont show ?thesis by simp
  qed
  have "\<not> sublist w ('': '' @ (Content u @ ?sep))" by (rule free_after_prefix [OF colon tail])
  from this have "\<not> sublist w (ModelName u @ [CHR '']''] @ ('': '' @ (Content u @ ?sep)))"
    by (rule free_sep_append [OF rb name])
  from this
  have "\<not> sublist w (acc @ [CHR ''[''] @ (ModelName u @ [CHR '']''] @ ('': '' @ (Content u @ ?sep))))"
    by (rule free_sep_append [OF lb Cons.prems(1)])
  then have "\<not> sublist w ?acc" by simp
  then show ?case unfolding step using rest by (rule Cons.IH)
qed

lemma promptRemainder_free:
  assumes T: "templateAvoids w sentence"
    and h: "\<forall>turn \<in> set transcript. \<not> sublist w (ModelName turn) \<and> \<not> sublist w (Content turn)"
  shows "\<not> sublist w (promptRemainder transcript)"
proof -
  from T have ne: "w \<noteq> []" and nlc: "CHR 0x0A \<notin> set w"
    and c1: "\<not> sublist w ''Provide your opening argument. Be thoughtful, specific, and clearly state your position.''"
    and pd: "\<not> sublist w ''Previous discussion:''"
    and c2: "\<not> sublist w ''Provide your next argument or response. Be thoughtful, specific, and engage directly with the previous points made.''"
    unfolding templateAvoids_def by blast+
  from ne have emp: "\<not> sublist w []" by simp
  show ?thesis
  proof (cases "transcript = []")
    case True
    have
      "\<not> sublist w (''Provide your opening argument. Be thoughtful, specific, and clearly state your position.'' @ [CHR 0x0A] @ [])"
      by (rule free_sep_append [OF nlc c1 emp])
    with True show ?thesis by (simp only: promptRemainder_def simp_thms if_False append_Nil2)
  next
    case False
    from emp h have fh: "\<not> sublist w (FormatHistory transcript)"
      unfolding FormatHistory_def by (rule FormatHistory_loop_free [OF T])
    have
      "\<not> sublist w (''Provide your next argument or response. Be thoughtful, specific, and engage directly with the previous points made.'' @ [CHR 0x0A] @ [])"
      by (rule free_sep_append [OF nlc c2 emp])
    from this have
      "\<not> sublist w (FormatHistory transcript @ [CHR 0x0A] @
         (''Provide your next argument or response. Be thoughtful, specific, and engage directly with the previous points made.'' @ [CHR 0x0A] @ []))"
      by (rule free_sep_append [OF nlc fh])
    from this have
      "\<not> sublist w (''Previous discussion:'' @ [CHR 0x0A] @ (FormatHistory transcript @ [CHR 0x0A] @
         (''Provide your next argument or response. Be thoughtful, specific, and engage directly with the previous points made.'' @ [CHR 0x0A] @ [])))"
      by (rule free_sep_append [OF nlc pd])
    with False show ?thesis
      by (simp only: promptRemainder_def simp_thms if_True append_Nil2 append_assoc)
  qed
qed

lemma template_free:
  assumes T: "templateAvoids w sentence"
    and W: "written = [] \<or> written = sentence @ nl @ nl"
    and tp: "\<not> sublist w topicText" and cm: "\<not> sublist w currentModel"
    and h: "\<forall>turn \<in> set transcript. \<not> sublist w (ModelName turn) \<and> \<not> sublist w (Content turn)"
  shows "\<not> sublist w (promptHeader topicText currentModel @ written @ promptRemainder transcript)"
proof -
  from T have ne: "w \<noteq> []" and nlc: "CHR 0x0A \<notin> set w"
    and dqc: "CHR 0x22 \<notin> set w" and apc: "CHR 0x27 \<notin> set w"
    and g0: "\<not> sublist w ''You are participating in a debate on the topic: ''"
    and ya: "startsNowhere w ''You are ''"
    and role: "endsNowhere w ''. Your role is to present arguments and respond to your opponent''"
    and sp: "\<not> sublist w ''s points.''"
    and sen: "\<not> sublist w sentence"
    unfolding templateAvoids_def by blast+
  from ne have emp: "\<not> sublist w []" by simp
  note rem = promptRemainder_free [OF T h]
  have wr: "\<not> sublist w (written @ promptRemainder transcript)"
  proof (cases "written = []")
    case True
    with rem show ?thesis by simp
  next
    case False
    have "\<not> sublist w ([] @ [CHR 0x0A] @ promptRemainder transcript)"
      by (rule free_sep_append [OF nlc emp rem])
    from this have "\<not> sublist w (sentence @ [CHR 0x0A] @ ([] @ [CHR 0x0A] @ promptRemainder transcript))"
      by (rule free_sep_append [OF nlc sen])
    with False W show ?thesis by simp
  qed
  have "\<not> sublist w ([] @ [CHR 0x0A] @ (written @ promptRemainder transcript))"
    by (rule free_sep_append [OF nlc emp wr])
  from this have x4: "\<not> sublist w (''s points.'' @ [CHR 0x0A] @
      ([] @ [CHR 0x0A] @ (written @ promptRemainder transcript)))"
    by (rule free_sep_append [OF nlc sp])
  have cmr:
    "\<not> sublist w (currentModel @ ''. Your role is to present arguments and respond to your opponent'')"
    by (rule free_before_suffix [OF role cm])
  have x3: "\<not> sublist w
      ((currentModel @ ''. Your role is to present arguments and respond to your opponent'')
       @ [CHR 0x27] @ (''s points.'' @ [CHR 0x0A] @
          ([] @ [CHR 0x0A] @ (written @ promptRemainder transcript))))"
    by (rule free_sep_append [OF apc cmr x4])
  have x2': "\<not> sublist w (''You are '' @
      ((currentModel @ ''. Your role is to present arguments and respond to your opponent'')
       @ [CHR 0x27] @ (''s points.'' @ [CHR 0x0A] @
          ([] @ [CHR 0x0A] @ (written @ promptRemainder transcript)))))"
    by (rule free_after_prefix [OF ya x3])
  from this have "\<not> sublist w ([] @ [CHR 0x0A] @ (''You are '' @
      ((currentModel @ ''. Your role is to present arguments and respond to your opponent'')
       @ [CHR 0x27] @ (''s points.'' @ [CHR 0x0A] @
          ([] @ [CHR 0x0A] @ (written @ promptRemainder transcript))))))"
    by (rule free_sep_append [OF nlc emp])
  from this have x2: "\<not> sublist w ([] @ [CHR 0x0A] @ ([] @ [CHR 0x0A] @ (''You are '' @
      ((currentModel @ ''. Your role is to present arguments and respond to your opponent'')
       @ [CHR 0x27] @ (''s points.'' @ [CHR 0x0A] @
          ([] @ [CHR 0x0A] @ (written @ promptRemainder transcript)))))))"
    by (rule free_sep_append [OF nlc emp])
  from this have x1: "\<not> sublist w (topicText @ [CHR 0x22] @
      ([] @ [CHR 0x0A] @ ([] @ [CHR 0x0A] @ (''You are '' @
      ((currentModel @ ''. Your role is to present arguments and respond to your opponent'')
       @ [CHR 0x27] @ (''s points.'' @ [CHR 0x0A] @
          ([] @ [CHR 0x0A] @ (written @ promptRemainder transcript))))))))"
    by (rule free_sep_append [OF dqc tp])
  from this have "\<not> sublist w (''You are participating in a debate on the topic: '' @ [CHR 0x22] @
      (topicText @ [CHR 0x22] @
      ([] @ [CHR 0x0A] @ ([] @ [CHR 0x0A] @ (''You are '' @
      ((currentModel @ ''. Your role is to present arguments and respond to your opponent'')
       @ [CHR 0x27] @ (''s points.'' @ [CHR 0x0A] @
          ([] @ [CHR 0x0A] @ (written @ promptRemainder transcript)))))))))"
    by (rule free_sep_append [OF dqc g0])
  then show ?thesis
    by (simp only: promptHeader_def append_assoc append_Nil simp_thms)
qed

lemma openingWording_in_instruction: "sublist openingWording openingInstruction"
  unfolding openingInstruction_wording sublist_def
  by (rule exI [of _ "[]"], rule exI [of _ "''.'' @ nl @ nl"]) simp

lemma opposingWording_in_instruction: "sublist opposingWording opposingInstruction"
  unfolding opposingInstruction_wording sublist_def
  by (rule exI [of _ "[]"], rule exI [of _ "''.'' @ nl @ nl"]) simp

lemma contains_instructions:
  assumes "carriesNoInstruction topicText transcript currentModel"
  shows "(sublist openingInstruction
            (BuildDebatePrompt topicText transcript currentModel isFirstTurn)
          \<longleftrightarrow> isFirstTurn \<and> transcript = [])
       \<and> (sublist opposingInstruction
            (BuildDebatePrompt topicText transcript currentModel isFirstTurn)
          \<longleftrightarrow> isFirstTurn \<and> transcript \<noteq> [])"
proof -
  let ?A = "promptHeader topicText currentModel"
  let ?B = "promptRemainder transcript"
  from assms have
    o: "\<not> sublist openingWording topicText" "\<not> sublist openingWording currentModel"
       "\<forall>turn \<in> set transcript. \<not> sublist openingWording (ModelName turn)
           \<and> \<not> sublist openingWording (Content turn)"
    and p: "\<not> sublist opposingWording topicText" "\<not> sublist opposingWording currentModel"
       "\<forall>turn \<in> set transcript. \<not> sublist opposingWording (ModelName turn)
           \<and> \<not> sublist opposingWording (Content turn)"
    unfolding carriesNoInstruction_def carriesWording_def list_ex_iff by blast+
  show ?thesis
  proof (cases isFirstTurn)
    case False
    then have P: "BuildDebatePrompt topicText transcript currentModel isFirstTurn = ?A @ [] @ ?B"
      unfolding BuildDebatePrompt_parts positionInstruction_def by simp
    have "\<not> sublist openingWording (?A @ [] @ ?B)"
      by (rule template_free [OF templateAvoids_opening_unset _ o]) simp
    then have 1: "\<not> sublist openingInstruction (?A @ [] @ ?B)"
      using sublist_trans [OF openingWording_in_instruction] by blast
    have "\<not> sublist opposingWording (?A @ [] @ ?B)"
      by (rule template_free [OF templateAvoids_opposing_unset _ p]) simp
    then have 2: "\<not> sublist opposingInstruction (?A @ [] @ ?B)"
      using sublist_trans [OF opposingWording_in_instruction] by blast
    from 1 2 False show ?thesis unfolding P by simp
  next
    case True
    show ?thesis
    proof (cases "transcript = []")
      case empty: True
      with True have P: "BuildDebatePrompt topicText transcript currentModel isFirstTurn
          = ?A @ openingInstruction @ ?B"
        unfolding BuildDebatePrompt_parts positionInstruction_def by simp
      have 1: "sublist openingInstruction (?A @ openingInstruction @ ?B)" by (rule sublist_appendI)
      have "\<not> sublist opposingWording (?A @ openingInstruction @ ?B)"
        by (rule template_free [OF templateAvoids_opposing_other _ p])
           (simp only: openingInstruction_wording simp_thms)
      then have 2: "\<not> sublist opposingInstruction (?A @ openingInstruction @ ?B)"
        using sublist_trans [OF opposingWording_in_instruction] by blast
      from 1 2 True empty show ?thesis unfolding P by simp
    next
      case nonempty: False
      with True have P: "BuildDebatePrompt topicText transcript currentModel isFirstTurn
          = ?A @ opposingInstruction @ ?B"
        unfolding BuildDebatePrompt_parts positionInstruction_def by simp
      have 1: "sublist opposingInstruction (?A @ opposingInstruction @ ?B)" by (rule sublist_appendI)
      have "\<not> sublist openingWording (?A @ opposingInstruction @ ?B)"
        by (rule template_free [OF templateAvoids_opening_other _ o])
           (simp only: opposingInstruction_wording simp_thms)
      then have 2: "\<not> sublist openingInstruction (?A @ opposingInstruction @ ?B)"
        using sublist_trans [OF openingWording_in_instruction] by blast
      from 1 2 True nonempty show ?thesis unfolding P by simp
    qed
  qed
qed

lemma written_instructions:
  "isFirstTurn \<and> transcript = [] \<longrightarrow>
     sublist openingInstruction (BuildDebatePrompt topicText transcript currentModel isFirstTurn)"
  "isFirstTurn \<and> transcript \<noteq> [] \<longrightarrow>
     sublist opposingInstruction (BuildDebatePrompt topicText transcript currentModel isFirstTurn)"
  unfolding BuildDebatePrompt_parts positionInstruction_def
  by (simp_all add: sublist_appendI)

text \<open>
  C6. The composer writes a position instruction at one place only, directly after the
  role paragraph. There the prompt continues with the opening-position instruction
  exactly when the opening-turn flag is set and the transcript is empty, and with the
  opposing-position instruction exactly when the flag is set and the transcript is
  non-empty; with the flag unset it continues with neither. An instruction written is
  contained in the prompt. For every topic, participant name and transcript that do not
  themselves carry the wording of an instruction, the prompt contains each instruction
  under exactly these conditions, and so neither of them when the flag is unset.
\<close>

theorem position_instruction_placement:
  "prefix (promptHeader topicText currentModel)
     (BuildDebatePrompt topicText transcript currentModel isFirstTurn)
   \<and> (prefix openingInstruction
         (drop (length (promptHeader topicText currentModel))
            (BuildDebatePrompt topicText transcript currentModel isFirstTurn))
       \<longleftrightarrow> isFirstTurn \<and> transcript = [])
   \<and> (prefix opposingInstruction
         (drop (length (promptHeader topicText currentModel))
            (BuildDebatePrompt topicText transcript currentModel isFirstTurn))
       \<longleftrightarrow> isFirstTurn \<and> transcript \<noteq> [])
   \<and> (isFirstTurn \<and> transcript = [] \<longrightarrow>
        sublist openingInstruction
          (BuildDebatePrompt topicText transcript currentModel isFirstTurn))
   \<and> (isFirstTurn \<and> transcript \<noteq> [] \<longrightarrow>
        sublist opposingInstruction
          (BuildDebatePrompt topicText transcript currentModel isFirstTurn))
   \<and> (carriesNoInstruction topicText transcript currentModel \<longrightarrow>
        (sublist openingInstruction
            (BuildDebatePrompt topicText transcript currentModel isFirstTurn)
          \<longleftrightarrow> isFirstTurn \<and> transcript = [])
      \<and> (sublist opposingInstruction
            (BuildDebatePrompt topicText transcript currentModel isFirstTurn)
          \<longleftrightarrow> isFirstTurn \<and> transcript \<noteq> []))"
proof (intro conjI)
  show "prefix (promptHeader topicText currentModel)
     (BuildDebatePrompt topicText transcript currentModel isFirstTurn)"
    unfolding BuildDebatePrompt_parts by simp
  show "carriesNoInstruction topicText transcript currentModel \<longrightarrow>
        (sublist openingInstruction
            (BuildDebatePrompt topicText transcript currentModel isFirstTurn)
          \<longleftrightarrow> isFirstTurn \<and> transcript = [])
      \<and> (sublist opposingInstruction
            (BuildDebatePrompt topicText transcript currentModel isFirstTurn)
          \<longleftrightarrow> isFirstTurn \<and> transcript \<noteq> [])"
    using contains_instructions by blast
  show "isFirstTurn \<and> transcript = [] \<longrightarrow>
        sublist openingInstruction
          (BuildDebatePrompt topicText transcript currentModel isFirstTurn)"
    by (rule written_instructions(1))
  show "isFirstTurn \<and> transcript \<noteq> [] \<longrightarrow>
        sublist opposingInstruction
          (BuildDebatePrompt topicText transcript currentModel isFirstTurn)"
    by (rule written_instructions(2))
qed (simp_all only: prompt_after_header slot_opening slot_opposing)

theorem position_instruction_placement_witness:
  "carriesNoInstruction ''Should we colonize Mars?''
     [\<lparr>ModelName = ''mistral:7b'',
       Content = ''Mars colonization is essential for humanity'' @ apostrophe @ ''s survival.'',
       Timestamp = 0\<rparr>,
      \<lparr>ModelName = ''gemma3:4b'',
       Content = ''The costs outweigh the benefits at this time.'', Timestamp = 0\<rparr>]
     ''mistral:7b''
   \<and> \<not> sublist openingInstruction
        (BuildDebatePrompt ''Should we colonize Mars?''
           [\<lparr>ModelName = ''mistral:7b'',
             Content = ''Mars colonization is essential for humanity'' @ apostrophe @ ''s survival.'',
             Timestamp = 0\<rparr>,
            \<lparr>ModelName = ''gemma3:4b'',
             Content = ''The costs outweigh the benefits at this time.'', Timestamp = 0\<rparr>]
           ''mistral:7b'' False)
   \<and> \<not> sublist opposingInstruction
        (BuildDebatePrompt ''Should we colonize Mars?''
           [\<lparr>ModelName = ''mistral:7b'',
             Content = ''Mars colonization is essential for humanity'' @ apostrophe @ ''s survival.'',
             Timestamp = 0\<rparr>,
            \<lparr>ModelName = ''gemma3:4b'',
             Content = ''The costs outweigh the benefits at this time.'', Timestamp = 0\<rparr>]
           ''mistral:7b'' False)
   \<and> sublist openingInstruction (BuildDebatePrompt ''Tea?'' [] ''mistral:7b'' True)
   \<and> sublist opposingInstruction
        (BuildDebatePrompt ''Tea?''
           [\<lparr>ModelName = ''mistral:7b'', Content = ''Tea is best.'', Timestamp = 0\<rparr>]
           ''gemma3:4b'' True)"
proof -
  let ?h = "[\<lparr>ModelName = ''mistral:7b'',
       Content = ''Mars colonization is essential for humanity'' @ apostrophe @ ''s survival.'',
       Timestamp = 0\<rparr>,
      \<lparr>ModelName = ''gemma3:4b'',
       Content = ''The costs outweigh the benefits at this time.'', Timestamp = 0\<rparr>]"
  let ?g = "[\<lparr>ModelName = ''mistral:7b'', Content = ''Tea is best.'', Timestamp = 0\<rparr>]"
  have c: "carriesNoInstruction ''Should we colonize Mars?'' ?h ''mistral:7b''"
    by code_simp
  have g: "?g \<noteq> []" by simp
  from position_instruction_placement
         [where topicText = "''Should we colonize Mars?''" and transcript = ?h
            and currentModel = "''mistral:7b''" and isFirstTurn = False] c
  have 1: "\<not> sublist openingInstruction
             (BuildDebatePrompt ''Should we colonize Mars?'' ?h ''mistral:7b'' False)
         \<and> \<not> sublist opposingInstruction
             (BuildDebatePrompt ''Should we colonize Mars?'' ?h ''mistral:7b'' False)"
    by blast
  from position_instruction_placement
         [where topicText = "''Tea?''" and transcript = "[]"
            and currentModel = "''mistral:7b''" and isFirstTurn = True]
  have 2: "sublist openingInstruction (BuildDebatePrompt ''Tea?'' [] ''mistral:7b'' True)"
    by blast
  from position_instruction_placement
         [where topicText = "''Tea?''" and transcript = ?g
            and currentModel = "''gemma3:4b''" and isFirstTurn = True] g
  have 3: "sublist opposingInstruction (BuildDebatePrompt ''Tea?'' ?g ''gemma3:4b'' True)"
    by blast
  from c 1 2 3 show ?thesis by blast
qed

text \<open>
  The condition on the inputs concerns text the composer copies, not text it writes: the
  transcript is reproduced as it is, so a turn that quotes an instruction brings its
  wording into the prompt whatever the flag.
\<close>

lemma echoed_instruction_reproduced:
  "sublist openingInstruction
     (BuildDebatePrompt ''t''
        [\<lparr>ModelName = ''A'', Content = openingInstruction, Timestamp = 0\<rparr>] ''B'' False)"
proof -
  let ?h = "[\<lparr>ModelName = ''A'', Content = openingInstruction, Timestamp = 0\<rparr>]"
  have "?h ! 0 \<in> set ?h" by simp
  then have "sublist (Content (?h ! 0)) (FormatHistory_loop (length ?h) 0 ?h [])"
    using FormatHistory_loop_turn by blast
  then have "sublist openingInstruction (FormatHistory ?h)"
    unfolding FormatHistory_def by simp
  then have "sublist openingInstruction (promptRemainder ?h)"
    by (intro promptRemainder_history) simp_all
  then show ?thesis
    unfolding BuildDebatePrompt_parts by (intro sublist_right)
qed

section \<open>The streaming client: outcomes\<close>

lemma scanLoop_passes:
  "list_all passes pre \<Longrightarrow>
   scanLoop (pre @ rest) = (increments pre @ fst (scanLoop rest), snd (scanLoop rest))"
proof (induction pre)
  case Nil
  show ?case by simp
next
  case (Cons ev pre)
  then have p: "passes ev" and IH: "scanLoop (pre @ rest)
      = (increments pre @ fst (scanLoop rest), snd (scanLoop rest))"
    by simp_all
  from p show ?case
    unfolding passes_def
    by (auto simp: IH split: sum.splits sendOutcome.splits)
qed

lemma scanLoop_completes:
  "completes ev \<Longrightarrow> scanLoop (ev # rest) = (increments [ev], Returned None)"
  unfolding completes_def by (auto split: sum.splits sendOutcome.splits)

lemma scanLoop_malformed:
  "malformed ev \<Longrightarrow>
   \<exists>err. decoded ev = Inl err \<and> scanLoop (ev # rest) = ([], Returned (Some (ParseFailed err)))"
  unfolding malformed_def by (auto split: sum.splits simp: isl_def)

lemma scanLoop_cancelObserved:
  "cancelObserved ev \<Longrightarrow> scanLoop (ev # rest) = ([], Returned (Some ContextErr))"
  unfolding cancelObserved_def by (auto split: sum.splits sendOutcome.splits)

lemma not_passes_cases:
  "\<not> passes ev \<Longrightarrow> completes ev \<or> malformed ev \<or> cancelObserved ev"
  unfolding passes_def completes_def malformed_def cancelObserved_def
  by (auto split: sum.splits intro: sendOutcome.exhaust)

lemma increments_append: "increments (xs @ ys) = increments xs @ increments ys"
  by (induction xs) (auto split: sum.splits)

lemma first_stop:
  "\<not> list_all passes events \<Longrightarrow>
   \<exists>pre ev rest. events = pre @ ev # rest \<and> list_all passes pre \<and> \<not> passes ev"
proof -
  assume "\<not> list_all passes events"
  then have ne: "dropWhile passes events \<noteq> []"
    by (simp add: list_all_iff dropWhile_eq_Nil_conv)
  then obtain ev rest where d: "dropWhile passes events = ev # rest"
    by (cases "dropWhile passes events") auto
  then have "\<not> passes ev" using hd_dropWhile [OF ne] by simp
  moreover have "events = takeWhile passes events @ ev # rest"
    using takeWhile_dropWhile_id [of passes events] d by simp
  moreover have "list_all passes (takeWhile passes events)"
    by (simp add: list_all_iff) (meson set_takeWhileD)
  ultimately show ?thesis by blast
qed

lemma iff_disj_first: "P \<Longrightarrow> \<not> C \<Longrightarrow> L = S \<Longrightarrow> L = (C \<or> P \<and> S)"
  by blast

lemma iff_disj_neither: "\<not> L \<Longrightarrow> \<not> C \<Longrightarrow> \<not> P \<Longrightarrow> L = (C \<or> P \<and> S)"
  by blast

lemma iff_disj_left: "L \<Longrightarrow> C \<Longrightarrow> L = (C \<or> E)"
  by blast

lemma success_iff:
  "snd (OllamaClient_GenerateResponse (HTTPResponse 200 events scannerErr)) = None
      \<longleftrightarrow> (\<exists>pre ev rest. events = pre @ ev # rest \<and> list_all passes pre \<and> completes ev)
          \<or> (list_all passes events \<and> scannerErr = None)"
  (is "?L \<longleftrightarrow> ?C \<or> ?E")
proof (cases "list_all passes events")
  case allpass: True
  have no: "\<not> ?C"
  proof
    assume ?C
    then obtain pre ev rest where "events = pre @ ev # rest" "completes ev" by blast
    with allpass have "passes ev" "completes ev" by simp_all
    then show False unfolding passes_def completes_def by (auto split: sum.splits)
  qed
  from scanLoop_passes [OF allpass, of "[]"] have "scanLoop events = (increments events, ScanEnded)"
    by simp
  then have "?L \<longleftrightarrow> scannerErr = None"
    by (simp add: OllamaClient_GenerateResponse_def split: option.splits)
  with allpass no show ?thesis by (rule iff_disj_first)
next
  case notall: False
  then obtain pre ev rest where e: "events = pre @ ev # rest" and p: "list_all passes pre"
    and n: "\<not> passes ev"
    using first_stop by blast
  note s = scanLoop_passes [OF p, of "ev # rest"]
  show ?thesis
  proof (cases "completes ev")
    case True
    with s scanLoop_completes [OF True, of rest] have ?L
      by (simp add: OllamaClient_GenerateResponse_def e)
    moreover from e p True have ?C by blast
    ultimately show ?thesis by (rule iff_disj_left)
  next
    case nc: False
    have fail: "\<not> ?L"
    proof -
      from n nc have "malformed ev \<or> cancelObserved ev" using not_passes_cases by blast
      then show ?thesis
      proof
        assume "malformed ev"
        with s scanLoop_malformed [of ev rest] show ?thesis
          by (auto simp: OllamaClient_GenerateResponse_def e)
      next
        assume "cancelObserved ev"
        with s scanLoop_cancelObserved [of ev rest] show ?thesis
          by (auto simp: OllamaClient_GenerateResponse_def e)
      qed
    qed
    moreover have "\<not> ?C"
    proof
      assume ?C
      then obtain pre' ev' rest' where e': "events = pre' @ ev' # rest'"
        and p': "list_all passes pre'" and c': "completes ev'" by blast
      from scanLoop_passes [OF p', of "ev' # rest'"] scanLoop_completes [OF c', of rest']
      have ?L
        by (simp add: OllamaClient_GenerateResponse_def e')
      with fail show False by simp
    qed
    ultimately show ?thesis using notall by (rule iff_disj_neither)
  qed
qed

text \<open>
  C7, as amended. On a response with status 200 the client reports success exactly when
  the loop reaches a record that completes (well-formed, completion flag set, its
  increment handed over), or the stream ends without a read error with every line passed
  (blank, or a well-formed record without the flag). A status other than 200 is reported
  as a failure that carries the status code, with no increment emitted. A line that fails
  to parse, reached after lines that passed, is reported as a parse failure, and nothing
  after it is read.
\<close>

theorem GenerateResponse_outcomes:
  "(snd (OllamaClient_GenerateResponse (HTTPResponse 200 events scannerErr)) = None
      \<longleftrightarrow> (\<exists>pre ev rest. events = pre @ ev # rest \<and> list_all passes pre \<and> completes ev)
          \<or> (list_all passes events \<and> scannerErr = None))
   \<and> (StatusCode \<noteq> 200 \<longrightarrow>
        OllamaClient_GenerateResponse (HTTPResponse StatusCode events scannerErr)
          = ([], Some (StatusNotOK StatusCode)))
   \<and> (list_all passes before \<and> malformed bad \<longrightarrow>
        (\<exists>err. decoded bad = Inl err \<and>
           OllamaClient_GenerateResponse (HTTPResponse 200 (before @ bad # after) scannerErr)
             = (increments before, Some (ParseFailed err))))"
proof (intro conjI impI)
  show "snd (OllamaClient_GenerateResponse (HTTPResponse 200 events scannerErr)) = None
      \<longleftrightarrow> (\<exists>pre ev rest. events = pre @ ev # rest \<and> list_all passes pre \<and> completes ev)
          \<or> (list_all passes events \<and> scannerErr = None)"
    by (rule success_iff)
next
  assume "StatusCode \<noteq> 200"
  then show "OllamaClient_GenerateResponse (HTTPResponse StatusCode events scannerErr)
          = ([], Some (StatusNotOK StatusCode))"
    by (simp add: OllamaClient_GenerateResponse_def)
next
  assume a: "list_all passes before \<and> malformed bad"
  then obtain err where d: "decoded bad = Inl err"
    and sl: "scanLoop (bad # after) = ([], Returned (Some (ParseFailed err)))"
    using scanLoop_malformed [of bad after] by blast
  from a have p: "list_all passes before" by simp
  from scanLoop_passes [OF p, of "bad # after"] sl
  have "OllamaClient_GenerateResponse (HTTPResponse 200 (before @ bad # after) scannerErr)
             = (increments before, Some (ParseFailed err))"
    by (simp add: OllamaClient_GenerateResponse_def)
  with d show "\<exists>err. decoded bad = Inl err \<and>
           OllamaClient_GenerateResponse (HTTPResponse 200 (before @ bad # after) scannerErr)
             = (increments before, Some (ParseFailed err))"
    by blast
qed

theorem GenerateResponse_outcomes_witness:
  "OllamaClient_GenerateResponse (HTTPResponse 503 [] None) = ([], Some (StatusNotOK 503))
   \<and> list_all passes [wireRecord ''Valid'' False] \<and> malformed badLine
   \<and> OllamaClient_GenerateResponse
        (HTTPResponse 200 ([wireRecord ''Valid'' False] @ badLine # []) None)
       = ([''Valid''], Some (ParseFailed ''invalid character''))
   \<and> completes (wireRecord '''' True)
   \<and> snd (OllamaClient_GenerateResponse
        (HTTPResponse 200 ([wireRecord ''Hello'' False] @ wireRecord '''' True # []) None)) = None"
proof -
  have p: "list_all passes [wireRecord ''Valid'' False]"
    by (simp add: passes_def wireRecord_def)
  have p2: "list_all passes [wireRecord ''Hello'' False]"
    by (simp add: passes_def wireRecord_def)
  have m: "malformed badLine" by (simp add: malformed_def badLine_def)
  have d: "decoded badLine = Inl ''invalid character''" by (simp add: badLine_def)
  have c: "completes (wireRecord '''' True)" by (simp add: completes_def wireRecord_def)
  have i: "increments [wireRecord ''Valid'' False] = [''Valid'']" by (simp add: wireRecord_def)
  note t1 = GenerateResponse_outcomes [of "[]" None 503 "[wireRecord ''Valid'' False]" badLine "[]"]
  note t2 = GenerateResponse_outcomes
    [of "[wireRecord ''Hello'' False] @ wireRecord '''' True # []" None 503 "[]" badLine "[]"]
  from t1 have "OllamaClient_GenerateResponse (HTTPResponse 503 [] None)
      = ([], Some (StatusNotOK 503))"
    by simp
  moreover from t1 p m d i have "OllamaClient_GenerateResponse
        (HTTPResponse 200 ([wireRecord ''Valid'' False] @ badLine # []) None)
       = ([''Valid''], Some (ParseFailed ''invalid character''))"
    by auto
  moreover from p2 c have "\<exists>pre ev rest.
      [wireRecord ''Hello'' False] @ wireRecord '''' True # [] = pre @ ev # rest
      \<and> list_all passes pre \<and> completes ev"
    by blast
  with t2 have "snd (OllamaClient_GenerateResponse
        (HTTPResponse 200 ([wireRecord ''Hello'' False] @ wireRecord '''' True # []) None)) = None"
    by blast
  ultimately show ?thesis using p m c by blast
qed


text \<open>
  C7 as stated fails: a stream that ends cleanly after a record whose completion flag is
  not set is reported as a success, although no record with the flag set was parsed.
\<close>

theorem success_without_completion_counterexample:
  "\<not> (snd (OllamaClient_GenerateResponse (HTTPResponse 200 [wireRecord ''Hi'' False] None)) = None
       \<longleftrightarrow> completionParsed [wireRecord ''Hi'' False])"
  by (simp add: OllamaClient_GenerateResponse_def completionParsed_def wireRecord_def)

lemma scan_stops_at_cancel:
  assumes "list_all passes pre" and "cancelObserved ev"
  shows "OllamaClient_GenerateResponse (HTTPResponse 200 (pre @ ev # rest) scannerErr)
           = (increments pre, Some ContextErr)"
  using scanLoop_passes [OF assms(1), of "ev # rest"] scanLoop_cancelObserved [OF assms(2), of rest]
  by (simp add: OllamaClient_GenerateResponse_def)

lemma scan_ends_with_read_error:
  assumes "list_all passes pre"
  shows "OllamaClient_GenerateResponse (HTTPResponse 200 pre (Some err))
           = (increments pre, Some (ReadFailed err))"
  using scanLoop_passes [OF assms, of "[]"]
  by (simp add: OllamaClient_GenerateResponse_def)

text \<open>
  C8. A generation in progress whose context is cancelled emits no increment after the
  cancellation reaches it and reports a failure that has the cancellation as its cause.
  The cancellation reaches the goroutine while \<open>Do\<close> sends the request, while \<open>Scan\<close>
  waits for a line, at the check made at the top of the loop for every line delivered,
  or in the \<open>select\<close> that hands an increment to a caller that is not receiving. At the
  two checks the client reports \<open>ctx.Err()\<close> itself. In \<open>Do\<close> and in \<open>Scan\<close> the
  transport, which holds the context of the request, fails with the context's error;
  the client reports it wrapped by \<open>%w\<close>, which keeps it as the cause of the failure.
  In every case the increments emitted are those of the lines handled before that
  moment, whatever the exchange would have held after it.
\<close>

theorem cancellation_reported:
  assumes "inProgressAt point events" and "sublist canceledText transportErr"
  shows "OllamaClient_GenerateResponse (cancelledAt point transportErr events scannerErr)
           = (emittedBefore point events, Some (failureAt point transportErr))
       \<and> canceledCause (failureAt point transportErr)"
proof (cases point)
  case WhileSending
  with assms(2) show ?thesis by (simp add: OllamaClient_GenerateResponse_def)
next
  case (WhileReading k)
  with assms show ?thesis by (simp add: scan_ends_with_read_error)
next
  case (BeforeRecord k)
  with assms(1) have k: "k < length events" and p: "list_all passes (take k events)" by simp_all
  from k have d: "drop k events = events ! k # drop (Suc k) events"
    by (simp add: Cons_nth_drop_Suc)
  have c: "cancelObserved ((events ! k)\<lparr>ctxDone := True\<rparr>)" by (simp add: cancelObserved_def)
  from scan_stops_at_cancel [OF p c] show ?thesis by (simp add: BeforeRecord d)
next
  case (WhileHandingOver k)
  with assms(1) have p: "list_all passes (take k events)"
    and c: "cancelObserved ((events ! k)\<lparr>handoff := CancelSeen\<rparr>)"
    by (auto simp: cancelObserved_def split: sum.splits)
  from scan_stops_at_cancel [OF p c] show ?thesis by (simp add: WhileHandingOver)
qed

theorem cancellation_reported_witness:
  "inProgressAt WhileSending [wireRecord ''Start'' False, wireRecord ''End'' True]
   \<and> sublist canceledText
        (''Post '' @ dq @ ''http://localhost:11434/api/generate'' @ dq @ '': context canceled'')
   \<and> OllamaClient_GenerateResponse
        (cancelledAt WhileSending
           (''Post '' @ dq @ ''http://localhost:11434/api/generate'' @ dq @ '': context canceled'')
           [wireRecord ''Start'' False, wireRecord ''End'' True] None)
       = ([], Some (SendFailed
            (''Post '' @ dq @ ''http://localhost:11434/api/generate'' @ dq @ '': context canceled'')))
   \<and> canceledCause (SendFailed
            (''Post '' @ dq @ ''http://localhost:11434/api/generate'' @ dq @ '': context canceled''))
   \<and> inProgressAt (WhileReading 1) [wireRecord ''Start'' False, wireRecord ''End'' True]
   \<and> sublist canceledText ''context canceled''
   \<and> OllamaClient_GenerateResponse
        (cancelledAt (WhileReading 1) ''context canceled''
           [wireRecord ''Start'' False, wireRecord ''End'' True] None)
       = ([''Start''], Some (ReadFailed ''context canceled''))
   \<and> canceledCause (ReadFailed ''context canceled'')
   \<and> inProgressAt (BeforeRecord 1) [wireRecord ''Start'' False, wireRecord ''End'' True]
   \<and> OllamaClient_GenerateResponse
        (cancelledAt (BeforeRecord 1) ''context canceled''
           [wireRecord ''Start'' False, wireRecord ''End'' True] None)
       = ([''Start''], Some ContextErr)
   \<and> inProgressAt (WhileHandingOver 0) [wireRecord ''Start'' False, wireRecord ''End'' True]
   \<and> OllamaClient_GenerateResponse
        (cancelledAt (WhileHandingOver 0) ''context canceled''
           [wireRecord ''Start'' False, wireRecord ''End'' True] None)
       = ([], Some ContextErr)"
proof -
  let ?evs = "[wireRecord ''Start'' False, wireRecord ''End'' True]"
  let ?post = "''Post '' @ dq @ ''http://localhost:11434/api/generate'' @ dq @ '': context canceled''"
  have s: "sublist canceledText ''context canceled''" by (simp add: canceledText_def)
  have t: "sublist canceledText ?post" by code_simp
  have p0: "inProgressAt WhileSending ?evs" by simp
  have p1: "inProgressAt (WhileReading 1) ?evs" by (simp add: passes_def wireRecord_def)
  have p2: "inProgressAt (BeforeRecord 1) ?evs" by (simp add: passes_def wireRecord_def)
  have p3: "inProgressAt (WhileHandingOver 0) ?evs" by (simp add: wireRecord_def)
  have i: "increments [wireRecord ''Start'' False] = [''Start'']" by (simp add: wireRecord_def)
  from cancellation_reported [OF p0 t, of None]
  have "OllamaClient_GenerateResponse (cancelledAt WhileSending ?post ?evs None)
       = ([], Some (SendFailed ?post))
     \<and> canceledCause (SendFailed ?post)"
    by (simp only: emittedBefore.simps failureAt.simps)
  moreover from cancellation_reported [OF p1 s, of None] i
  have "OllamaClient_GenerateResponse (cancelledAt (WhileReading 1) ''context canceled'' ?evs None)
       = ([''Start''], Some (ReadFailed ''context canceled''))
     \<and> canceledCause (ReadFailed ''context canceled'')"
    by simp
  moreover from cancellation_reported [OF p2 s, of None] i
  have "OllamaClient_GenerateResponse (cancelledAt (BeforeRecord 1) ''context canceled'' ?evs None)
       = ([''Start''], Some ContextErr)"
    by simp
  moreover from cancellation_reported [OF p3 s, of None]
  have "OllamaClient_GenerateResponse (cancelledAt (WhileHandingOver 0) ''context canceled'' ?evs None)
       = ([], Some ContextErr)"
    by simp
  ultimately show ?thesis using s t p0 p1 p2 p3 by blast
qed

section \<open>Topic validation\<close>

lemma spaceEncodings_prefix_free:
  "\<forall>p \<in> set spaceEncodings. \<forall>w \<in> set spaceEncodings. prefix p w \<longrightarrow> p = w"
  by code_simp

lemma leadingSpace_append:
  assumes "w \<in> set spaceEncodings"
  shows "leadingSpace (w @ s) = Some w"
proof -
  have "\<exists>p \<in> set spaceEncodings. prefix p (w @ s)"
    using assms by (intro bexI [of _ w]) simp_all
  then have "leadingSpace (w @ s) \<noteq> None"
    unfolding leadingSpace_def find_None_iff by blast
  then obtain p where p: "leadingSpace (w @ s) = Some p" by blast
  then have mem: "p \<in> set spaceEncodings" and pre: "prefix p (w @ s)"
    using leadingSpace_Some by blast+
  have "prefix w (w @ s)" by simp
  with pre have "prefix p w \<or> prefix w p" by (rule prefix_same_cases)
  with mem assms spaceEncodings_prefix_free have "p = w" by blast
  with p show ?thesis by simp
qed

lemma trimLeftSpace_Nil: "trimLeftSpace [] = []"
  by code_simp

lemma trimRightSpace_Nil: "trimRightSpace [] = []"
  by code_simp

lemma whitespaceOnly_trimLeftSpace: "whitespaceOnly s \<Longrightarrow> trimLeftSpace s = []"
proof (induction rule: whitespaceOnly.induct)
  case empty
  show ?case by (rule trimLeftSpace_Nil)
next
  case (space w s)
  have "trimLeftSpace (w @ s) = trimLeftSpace (drop (length w) (w @ s))"
    by (subst trimLeftSpace.simps) (simp add: leadingSpace_append [OF space.hyps(1)])
  with space.IH show ?case by simp
qed

lemma whitespaceOnly_TrimSpace: "whitespaceOnly s \<Longrightarrow> TrimSpace s = []"
  by (simp add: TrimSpace_def whitespaceOnly_trimLeftSpace trimRightSpace_Nil)

text \<open>
  C4. Submitting a topic that is empty or made of white-space characters only, in the
  input state, is rejected: the model returned is the old one with the error message
  \<open>Topic cannot be empty\<close> and no other field changed (the state stays the input state,
  history and topic are untouched), and no command is scheduled.
\<close>

theorem whitespace_topic_rejected:
  assumes "whitespaceOnly (textInput m)" and "state m = stateInput"
  shows "Update ui now m (KeyMsg ''enter'') = (m\<lparr>errorMsg := ''Topic cannot be empty''\<rparr>, nilCmd)
       \<and> state (fst (Update ui now m (KeyMsg ''enter''))) = stateInput
       \<and> history (fst (Update ui now m (KeyMsg ''enter''))) = history m
       \<and> topic (fst (Update ui now m (KeyMsg ''enter''))) = topic m
       \<and> errorMsg (fst (Update ui now m (KeyMsg ''enter''))) = ''Topic cannot be empty''"
proof -
  from assms(1) have "TrimSpace (textInput m) = []" by (rule whitespaceOnly_TrimSpace)
  with assms(2) have
    "Update ui now m (KeyMsg ''enter'') = (m\<lparr>errorMsg := ''Topic cannot be empty''\<rparr>, nilCmd)"
    by (simp add: Let_def)
  then show ?thesis using assms(2) by simp
qed

theorem whitespace_topic_rejected_witness:
  "whitespaceOnly (textInput blankTopic) \<and> state blankTopic = stateInput
   \<and> Update plainWidgets 0 blankTopic (KeyMsg ''enter'')
       = (blankTopic\<lparr>errorMsg := ''Topic cannot be empty''\<rparr>, nilCmd)
   \<and> history (fst (Update plainWidgets 0 blankTopic (KeyMsg ''enter''))) = []"
proof -
  have sp: "'' '' \<in> set spaceEncodings" by (simp add: spaceEncodings_def)
  have "whitespaceOnly ('' '' @ '' '' @ '' '' @ [])"
    by (intro whitespaceOnly.space whitespaceOnly.empty sp)
  then have w: "whitespaceOnly (textInput blankTopic)" by (simp add: blankTopic_def)
  have s: "state blankTopic = stateInput" by (simp add: blankTopic_def initialModel_def)
  have h: "history blankTopic = []" by (simp add: blankTopic_def initialModel_def)
  from whitespace_topic_rejected [OF w s, of plainWidgets 0] w s h show ?thesis by simp
qed

section \<open>The orchestrator: invariants of the reachable states\<close>

lemma Update_model_names:
  "model1Name (fst (Update ui now m msg)) = model1Name m
   \<and> model2Name (fst (Update ui now m msg)) = model2Name m"
  by (cases msg) (simp_all add: Let_def updateViewport_def switchTurn_def)

lemma Update_history_names:
  "map ModelName (history (fst (Update ui now m msg))) = map ModelName (history m)
   \<or> (map ModelName (history (fst (Update ui now m msg)))
         = map ModelName (history m) @ [getNextModel m]
       \<and> (history m = []
          \<or> ModelName (history m ! (length (history m) - 1)) \<noteq> getNextModel m))"
proof (cases msg)
  case (responseChunkMsg chunk)
  then show ?thesis
    by (auto simp: Let_def updateViewport_def map_update list_update_same_conv)
next
  case (responseCompleteMsg fullResponse)
  then show ?thesis
    by (auto simp: Let_def switchTurn_def getNextModel_def map_update list_update_same_conv)
qed (simp_all add: Let_def updateViewport_def switchTurn_def)

lemma Update_currentTurn:
  "currentTurn m = 0 \<or> currentTurn m = 1 \<Longrightarrow>
   currentTurn (fst (Update ui now m msg)) = 0 \<or> currentTurn (fst (Update ui now m msg)) = 1"
  by (cases msg) (auto simp: Let_def updateViewport_def switchTurn_def)

lemma reachable_currentTurn: "reachable m \<Longrightarrow> currentTurn m = 0 \<or> currentTurn m = 1"
proof (induction rule: reachable.induct)
  case (init model1 model2 client)
  show ?case by (simp add: initialModel_def)
next
  case (step m ui now msg)
  from step.IH show ?case by (rule Update_currentTurn)
qed

lemma reachable_names_alternate:
  "reachable m \<Longrightarrow> distinct_adj (map ModelName (history m))"
proof (induction rule: reachable.induct)
  case (init model1 model2 client)
  show ?case by (simp add: initialModel_def)
next
  case (step m ui now msg)
  from Update_history_names [of ui now m msg] show ?case
  proof
    assume "map ModelName (history (fst (Update ui now m msg))) = map ModelName (history m)"
    with step.IH show ?thesis by simp
  next
    assume a: "map ModelName (history (fst (Update ui now m msg)))
         = map ModelName (history m) @ [getNextModel m]
       \<and> (history m = []
          \<or> ModelName (history m ! (length (history m) - 1)) \<noteq> getNextModel m)"
    have "history m \<noteq> [] \<Longrightarrow> last (map ModelName (history m))
        = ModelName (history m ! (length (history m) - 1))"
      by (simp add: last_map last_conv_nth)
    with a step.IH show ?thesis
      by (auto simp: distinct_adj_append_iff)
  qed
qed

lemma reachable_names_configured:
  "reachable m \<Longrightarrow> set (map ModelName (history m)) \<subseteq> {model1Name m, model2Name m}"
proof (induction rule: reachable.induct)
  case (init model1 model2 client)
  show ?case by (simp add: initialModel_def)
next
  case (step m ui now msg)
  let ?m' = "fst (Update ui now m msg)"
  have g: "getNextModel m \<in> {model1Name m, model2Name m}"
    by (simp add: getNextModel_def)
  from Update_history_names [of ui now m msg]
  have "set (map ModelName (history ?m')) \<subseteq> set (map ModelName (history m)) \<union> {getNextModel m}"
    by (metis Un_upper1 order_refl set_append list.simps(15) empty_set Un_insert_right sup_bot.right_neutral insert_is_Un sup_commute)
  with step.IH g have "set (map ModelName (history ?m')) \<subseteq> {model1Name m, model2Name m}"
    by blast
  then show ?case
    by (simp only: Update_model_names)
qed

lemma reachable_run: "reachable m \<Longrightarrow> reachable (run ui m msgs)"
proof (induction msgs arbitrary: m)
  case Nil
  then show ?case by simp
next
  case (Cons a msgs)
  obtain now msg where a: "a = (now, msg)" by (cases a)
  from Cons.prems have "reachable (fst (Update ui now m msg))" by (rule reachable.step)
  then have "reachable (run ui (fst (Update ui now m msg)) msgs)" by (rule Cons.IH)
  then show ?case by (simp add: a)
qed

text \<open>
  C1. In every reachable state, consecutive turns of the history are attributed to
  different participants, each one of the two configured participants; this holds on
  runs with generation failures too: a failure leaves the history as it is (it attributes
  no turn) and toggles the active participant.
\<close>

theorem history_alternates:
  assumes "reachable m"
  shows "(\<forall>i. Suc i < length (history m) \<longrightarrow>
            ModelName (history m ! i) \<noteq> ModelName (history m ! Suc i))
       \<and> (\<forall>i < length (history m).
            ModelName (history m ! i) = model1Name m \<or> ModelName (history m ! i) = model2Name m)
       \<and> history (fst (Update ui now m (responseErrorMsg err))) = history m
       \<and> currentTurn (fst (Update ui now m (responseErrorMsg err))) = 1 - currentTurn m"
proof (intro conjI allI impI)
  fix i assume "Suc i < length (history m)"
  with reachable_names_alternate [OF assms]
  show "ModelName (history m ! i) \<noteq> ModelName (history m ! Suc i)"
    by (auto simp: distinct_adj_conv_nth)
next
  fix i assume "i < length (history m)"
  then have "ModelName (history m ! i) \<in> set (map ModelName (history m))" by simp
  with reachable_names_configured [OF assms]
  show "ModelName (history m ! i) = model1Name m \<or> ModelName (history m ! i) = model2Name m"
    by blast
next
  show "history (fst (Update ui now m (responseErrorMsg err))) = history m"
    by (simp add: Let_def switchTurn_def)
next
  from reachable_currentTurn [OF assms]
  show "currentTurn (fst (Update ui now m (responseErrorMsg err))) = 1 - currentTurn m"
    by (auto simp: Let_def switchTurn_def)
qed

lemma exampleDebate_history:
  "history exampleDebate =
     [\<lparr>ModelName = ''A'', Content = ''Indeed.'', Timestamp = 4\<rparr>,
      \<lparr>ModelName = ''B'', Content = ''No.'', Timestamp = 5\<rparr>]"
  by code_simp

theorem history_alternates_witness:
  "reachable exampleDebate
   \<and> ModelName (history exampleDebate ! 0) \<noteq> ModelName (history exampleDebate ! Suc 0)
   \<and> ModelName (history exampleDebate ! 1) = model2Name exampleDebate
   \<and> history (fst (Update plainWidgets 6 exampleDebate (responseErrorMsg (Some ''status 503''))))
       = history exampleDebate"
proof -
  have r: "reachable exampleDebate"
    unfolding exampleDebate_def by (intro reachable_run reachable.init)
  have n: "model2Name exampleDebate = ''B''" by code_simp
  note a = history_alternates [OF r, of plainWidgets 6 "Some ''status 503''"]
  from a have "ModelName (history exampleDebate ! 0) \<noteq> ModelName (history exampleDebate ! Suc 0)"
    by (simp add: exampleDebate_history)
  moreover from a have "history (fst (Update plainWidgets 6 exampleDebate (responseErrorMsg (Some ''status 503''))))
       = history exampleDebate"
    by blast
  moreover have "ModelName (history exampleDebate ! 1) = model2Name exampleDebate"
    by (simp add: exampleDebate_history n)
  ultimately show ?thesis using r by blast
qed

lemma switchTurn_currentTurn:
  "currentTurn m = 0 \<or> currentTurn m = 1 \<Longrightarrow> currentTurn (switchTurn m) = 1 - currentTurn m"
  by (auto simp: switchTurn_def)

lemma switchTurn_involution:
  "currentTurn m = 0 \<or> currentTurn m = 1 \<Longrightarrow> switchTurn (switchTurn m) = m"
  by (auto simp: switchTurn_def)

text \<open>
  C10. In every reachable state the active-participant selector is 0 or 1. \<open>switchTurn\<close>
  maps 0 to 1 and 1 to 0, so it is an involution on reachable states; completion and
  failure each move the selector as \<open>switchTurn\<close> does and an accepted submit resets it
  to 0. The participant chosen by \<open>getNextModel\<close> is one of the two configured names.
\<close>

theorem currentTurn_binary_toggle:
  assumes "reachable m"
  shows "(currentTurn m = 0 \<or> currentTurn m = 1)
       \<and> currentTurn (switchTurn m) = 1 - currentTurn m
       \<and> switchTurn (switchTurn m) = m
       \<and> (getNextModel m = model1Name m \<or> getNextModel m = model2Name m)
       \<and> currentTurn (fst (Update ui now m (responseCompleteMsg fullResponse)))
           = currentTurn (switchTurn m)
       \<and> currentTurn (fst (Update ui now m (responseErrorMsg err)))
           = currentTurn (switchTurn m)
       \<and> (state m = stateInput \<and> TrimSpace (textInput m) \<noteq> '''' \<longrightarrow>
            currentTurn (fst (Update ui now m (KeyMsg ''enter''))) = 0)"
proof -
  note c = reachable_currentTurn [OF assms]
  have "getNextModel m = model1Name m \<or> getNextModel m = model2Name m"
    by (simp add: getNextModel_def)
  moreover have "currentTurn (fst (Update ui now m (responseCompleteMsg fullResponse)))
           = currentTurn (switchTurn m)"
    by (simp add: Let_def switchTurn_def)
  moreover have "currentTurn (fst (Update ui now m (responseErrorMsg err)))
           = currentTurn (switchTurn m)"
    by (simp add: Let_def switchTurn_def)
  moreover have "state m = stateInput \<and> TrimSpace (textInput m) \<noteq> '''' \<longrightarrow>
            currentTurn (fst (Update ui now m (KeyMsg ''enter''))) = 0"
    by (simp add: Let_def)
  ultimately show ?thesis
    using c switchTurn_currentTurn [OF c] switchTurn_involution [OF c] by blast
qed

theorem currentTurn_binary_toggle_witness:
  "reachable exampleDebate \<and> currentTurn exampleDebate = 0
   \<and> currentTurn (switchTurn exampleDebate) = 1
   \<and> switchTurn (switchTurn exampleDebate) = exampleDebate
   \<and> reachable typedTopic \<and> state typedTopic = stateInput
   \<and> TrimSpace (textInput typedTopic) \<noteq> ''''
   \<and> currentTurn (fst (Update plainWidgets 1 typedTopic (KeyMsg ''enter''))) = 0"
proof -
  have r: "reachable exampleDebate"
    unfolding exampleDebate_def by (intro reachable_run reachable.init)
  have r2: "reachable typedTopic"
    unfolding typedTopic_def by (intro reachable_run reachable.init)
  have c: "currentTurn exampleDebate = 0" by code_simp
  have s: "state typedTopic = stateInput" by code_simp
  have t: "TrimSpace (textInput typedTopic) \<noteq> ''''" by code_simp
  from currentTurn_binary_toggle [OF r] c
  have "currentTurn (switchTurn exampleDebate) = 1
      \<and> switchTurn (switchTurn exampleDebate) = exampleDebate"
    by simp
  moreover from currentTurn_binary_toggle [OF r2, of plainWidgets 1] s t
  have "currentTurn (fst (Update plainWidgets 1 typedTopic (KeyMsg ''enter''))) = 0"
    by blast
  ultimately show ?thesis using r r2 c s t by blast
qed

section \<open>The orchestrator: completion, failure and stop\<close>

lemma failure_keeps_history:
  "history (fst (Update ui now m (responseErrorMsg err))) = history m"
  by (simp add: Let_def switchTurn_def)

lemma completion_appends:
  assumes "history m = []
         \<or> (Content (history m ! (length (history m) - 1)) \<noteq> fullResponse
            \<and> ModelName (history m ! (length (history m) - 1)) \<noteq> getNextModel m)"
  shows "history (fst (Update ui now m (responseCompleteMsg fullResponse)))
           = history m @ [\<lparr>ModelName = getNextModel m, Content = fullResponse, Timestamp = now\<rparr>]"
  using assms by (auto simp: Let_def switchTurn_def getNextModel_def split: if_splits)

lemma stopped_submit_and_stop:
  assumes "state m = stateStopped"
    and "msg = KeyMsg ''enter'' \<or> msg = KeyMsg ''q'' \<or> msg = KeyMsg ''ctrl+c'' \<or> msg = stopDebateMsg"
  shows "history (fst (Update ui now m msg)) = history m
       \<and> topic (fst (Update ui now m msg)) = topic m
       \<and> state (fst (Update ui now m msg)) = stateStopped"
  using assms by (auto simp: Let_def updateViewport_def)

text \<open>
  C3. A completion is meant to add one closed turn. After the first turn of \<open>A\<close> is
  recorded, the completion of \<open>B\<close> with the same text as the last turn leaves the
  history at one turn; and after a failure of \<open>B\<close>, the next completion of \<open>A\<close>
  overwrites the turn \<open>A\<close> had closed instead of adding one. (A failure itself leaves the
  history as it is: \<open>failure_keeps_history\<close>.)
\<close>

theorem completion_without_growth:
  "state afterFirstTurn = stateDebating
   \<and> history afterFirstTurn = [\<lparr>ModelName = ''A'', Content = ''Yes.'', Timestamp = 2\<rparr>]
   \<and> getNextModel afterFirstTurn = ''B''
   \<and> history (fst (Update plainWidgets 3 afterFirstTurn (responseCompleteMsg ''Yes.'')))
       = [\<lparr>ModelName = ''A'', Content = ''Yes.'', Timestamp = 2\<rparr>]
   \<and> state afterFailure = stateDebating
   \<and> history afterFailure = [\<lparr>ModelName = ''A'', Content = ''Yes.'', Timestamp = 2\<rparr>]
   \<and> history (fst (Update plainWidgets 4 afterFailure (responseCompleteMsg ''No.'')))
       = [\<lparr>ModelName = ''A'', Content = ''No.'', Timestamp = 4\<rparr>]"
  by code_simp

text \<open>
  C2. Once stopped, the session is meant to be frozen. After a stop with the key \<open>q\<close>,
  a completion that arrives late is still recorded in the history of the stopped session,
  and so is an increment. (A submit or a second stop changes neither history, topic nor
  state: \<open>stopped_submit_and_stop\<close>.)
\<close>

theorem stopped_session_still_records:
  "state stoppedDebate = stateStopped
   \<and> history stoppedDebate = []
   \<and> history (fst (Update plainWidgets 3 stoppedDebate (responseCompleteMsg ''late'')))
       = [\<lparr>ModelName = ''A'', Content = ''late'', Timestamp = 3\<rparr>]
   \<and> state (fst (Update plainWidgets 3 stoppedDebate (responseCompleteMsg ''late''))) = stateStopped
   \<and> history (fst (Update plainWidgets 3 stoppedDebate (responseChunkMsg ''late'')))
       = [\<lparr>ModelName = ''A'', Content = ''late'', Timestamp = 3\<rparr>]"
  by code_simp


end
